theory Spec2Isabelle
  imports Main "HOL-Library.Word"
begin

section \<open>JavaScript strings\<close>

text \<open>
  A JavaScript string is a sequence of UTF-16 code units. String literals of the source
  are written with \<open>js\<close>, which maps each (ASCII) character to its code unit.
\<close>

type_synonym code_unit = "16 word"
type_synonym js_string = "code_unit list"

definition js :: "string \<Rightarrow> js_string" where
  "js s = map (\<lambda>c. of_nat (of_char c)) s"

text \<open>
  ECMAScript's \<open>LineTerminator\<close> (LF, CR, LS, PS) and \<open>WhiteSpace\<close> (TAB, VT, FF, SP,
  NBSP, ZWNBSP and the space separators) productions. The regular expression class
  \<open>\s\<close> and \<open>String.prototype.trim\<close> both use the union of the two.
\<close>

definition isLineTerminator :: "code_unit \<Rightarrow> bool" where
  "isLineTerminator c = (c = 0x0A \<or> c = 0x0D \<or> c = 0x2028 \<or> c = 0x2029)"

definition isWhiteSpace :: "code_unit \<Rightarrow> bool" where
  "isWhiteSpace c =
     (c = 0x09 \<or> c = 0x0B \<or> c = 0x0C \<or> c = 0x20 \<or> c = 0xA0 \<or> c = 0x1680 \<or>
      (0x2000 \<le> c \<and> c \<le> 0x200A) \<or> c = 0x202F \<or> c = 0x205F \<or> c = 0x3000 \<or>
      c = 0xFEFF)"

definition isSpace :: "code_unit \<Rightarrow> bool" where
  "isSpace c = (isWhiteSpace c \<or> isLineTerminator c)"

definition trim :: "js_string \<Rightarrow> js_string" where
  "trim s = rev (dropWhile isSpace (rev (dropWhile isSpace s)))"

text \<open>
  \<open>toLowerCase\<close> on the ASCII letters; the source applies it to the one-character marker
  captured by the task pattern, which is always ASCII.
\<close>

definition toLowerCase :: "js_string \<Rightarrow> js_string" where
  "toLowerCase s = map (\<lambda>c. if 0x41 \<le> c \<and> c \<le> 0x5A then c + 0x20 else c) s"

text \<open>
  \<open>content.split('\n')\<close>: the pieces between line feeds; the empty string gives one
  empty piece. The recursive call never returns the empty list, so the last case
  alternative is not reached.
\<close>

fun split_newline :: "js_string \<Rightarrow> js_string list" where
  "split_newline [] = [[]]"
| "split_newline (c # cs) =
     (if c = 0x0A then [] # split_newline cs
      else (case split_newline cs of l # ls \<Rightarrow> (c # l) # ls | [] \<Rightarrow> [[c]]))"

text \<open>Decimal digits of a number, as the template literal \<open>`task-${i + 1}`\<close> prints it.\<close>

function decimal :: "nat \<Rightarrow> js_string" where
  "decimal n =
     (if n < 10 then [0x30 + of_nat n]
      else decimal (n div 10) @ [0x30 + of_nat (n mod 10)])"
  by pat_completeness auto
termination
  by (relation "measure (\<lambda>n. n)") auto

declare decimal.simps [simp del]

section \<open>The task ledger (fileUtils.ts)\<close>

datatype TaskStatus = PENDING | IN_PROGRESS | COMPLETE | BLOCKED

record Task =
  task_id :: js_string
  description :: js_string
  status :: TaskStatus
  lineNumber :: nat
  rawLine :: js_string

subsection \<open>The task pattern\<close>

text \<open>
  The source matches each line against \<^verbatim>\<open>/^[-*]\s*\[([ x~!])\]\s*(.+)$/im\<close> with
  \<open>exec\<close>. The pattern is not sticky, so \<open>exec\<close> tries every start position from the
  left and returns the first match. With the \<open>m\<close> flag \<open>^\<close> holds at position 0 and
  after any line terminator, and \<open>$\<close> holds at the end and before any line terminator.
  With the \<open>i\<close> flag the class \<open>[ x~!]\<close> also accepts \<open>X\<close>; no other code unit
  canonicalizes to one of the literal characters of the pattern.
\<close>

definition isBullet :: "code_unit \<Rightarrow> bool" where
  "isBullet c = (c = 0x2D \<or> c = 0x2A)"

definition isMarker :: "code_unit \<Rightarrow> bool" where
  "isMarker c = (c = 0x20 \<or> c = 0x78 \<or> c = 0x58 \<or> c = 0x7E \<or> c = 0x21)"

text \<open>
  \<open>(.+)$\<close>: the dot takes no line terminator, and the greedy \<open>.+\<close> stops at the end or
  just before a line terminator, where \<open>$\<close> holds; so it succeeds exactly when the
  first code unit exists and is no line terminator, capturing up to the next one.
\<close>

definition match_text :: "js_string \<Rightarrow> js_string option" where
  "match_text s =
     (case s of
        [] \<Rightarrow> None
      | c # _ \<Rightarrow> if isLineTerminator c then None
                 else Some (takeWhile (\<lambda>d. \<not> isLineTerminator d) s))"

text \<open>
  \<open>\s*(.+)$\<close>: the greedy \<open>\s*\<close> first takes one more space if it can, and gives it
  back when the rest then fails (backtracking).
\<close>

fun match_tail :: "js_string \<Rightarrow> js_string option" where
  "match_tail [] = None"
| "match_tail (c # cs) =
     (if isSpace c then
        (case match_tail cs of Some d \<Rightarrow> Some d | None \<Rightarrow> match_text (c # cs))
      else match_text (c # cs))"

text \<open>
  The whole pattern at one start position. After the bullet, \<open>\s*\<close> must take every
  space, since \<open>[\<close> is no space. The result is the pair of captures
  \<open>(match[1], match[2])\<close>.
\<close>

definition match_here :: "js_string \<Rightarrow> (js_string \<times> js_string) option" where
  "match_here s =
     (case s of
        [] \<Rightarrow> None
      | b # r \<Rightarrow>
          if isBullet b then
            (case dropWhile isSpace r of
               ob # m # cb # r2 \<Rightarrow>
                 if ob = 0x5B \<and> isMarker m \<and> cb = 0x5D then
                   (case match_tail r2 of None \<Rightarrow> None | Some d \<Rightarrow> Some ([m], d))
                 else None
             | _ \<Rightarrow> None)
          else None)"

fun exec_from :: "bool \<Rightarrow> js_string \<Rightarrow> (js_string \<times> js_string) option" where
  "exec_from bol [] = None"
| "exec_from bol (c # cs) =
     (case (if bol then match_here (c # cs) else None) of
        Some g \<Rightarrow> Some g
      | None \<Rightarrow> exec_from (isLineTerminator c) cs)"

definition task_pattern_exec :: "js_string \<Rightarrow> (js_string \<times> js_string) option" where
  "task_pattern_exec line = exec_from True line"

subsection \<open>Parsing\<close>

definition marker_status :: "js_string \<Rightarrow> TaskStatus" where
  "marker_status marker =
     (if marker = js ''x'' then COMPLETE
      else if marker = js ''~'' then IN_PROGRESS
      else if marker = js ''!'' then BLOCKED
      else PENDING)"

text \<open>The \<open>for\<close> loop of \<open>parseTasksFromContent\<close>, from index \<open>i\<close> on.\<close>

fun parse_loop :: "nat \<Rightarrow> js_string list \<Rightarrow> Task list" where
  "parse_loop i [] = []"
| "parse_loop i (line # rest) =
     (case task_pattern_exec line of
        None \<Rightarrow> parse_loop (i + 1) rest
      | Some (m1, m2) \<Rightarrow>
          \<lparr> task_id = js ''task-'' @ decimal (i + 1),
            description = trim m2,
            status = marker_status (toLowerCase m1),
            lineNumber = i + 1,
            rawLine = line \<rparr> # parse_loop (i + 1) rest)"

definition parseTasksFromContent :: "js_string \<Rightarrow> Task list" where
  "parseTasksFromContent content = parse_loop 0 (split_newline content)"

subsection \<open>Reading the ledger document\<close>

text \<open>
  What the workspace holds when the ledger document is read: whether a workspace folder
  is open, and the outcome of reading the file.
\<close>

datatype fs_read = FileContent js_string | NoSuchFile | ReadError

record Workspace =
  hasRoot :: bool
  prdFile :: fs_read

definition readPRDAsync :: "Workspace \<Rightarrow> js_string option" where
  "readPRDAsync w =
     (if \<not> hasRoot w then None
      else (case prdFile w of
              FileContent c \<Rightarrow> Some c
            | NoSuchFile \<Rightarrow> None
            | ReadError \<Rightarrow> None))"

definition parseTasksAsync :: "Workspace \<Rightarrow> Task list" where
  "parseTasksAsync w =
     (case readPRDAsync w of
        None \<Rightarrow> []
      | Some content \<Rightarrow> if content = [] then [] else parseTasksFromContent content)"

definition isOpen :: "Task \<Rightarrow> bool" where
  "isOpen t = (status t = PENDING \<or> status t = IN_PROGRESS)"

definition getNextTaskAsync :: "Workspace \<Rightarrow> Task option" where
  "getNextTaskAsync w = List.find isOpen (parseTasksAsync w)"

record TaskStats =
  total :: nat
  completed :: nat
  pending :: nat

definition getTaskStatsAsync :: "Workspace \<Rightarrow> TaskStats" where
  "getTaskStatsAsync w =
     (let tasks = parseTasksAsync w in
      \<lparr> total = length tasks,
        completed = length (filter (\<lambda>t. status t = COMPLETE) tasks),
        pending = length (filter isOpen tasks) \<rparr>)"

section \<open>The task runner (taskRunner.ts)\<close>

record TaskCompletion =
  taskDescription :: js_string
  completedAt :: int
  duration :: int
  iteration :: int

text \<open>
  Modelled from the spec: the declarations of \<open>TaskRequirements\<close> and \<open>RalphSettings\<close>
  (types.ts) are not part of the sources at hand. The requirements are the boolean policy
  flags of the specification; of the settings the runner reads only \<open>maxIterations\<close>
  (0 means unlimited).
\<close>

record TaskRequirements =
  writeTests :: bool
  runTests :: bool
  runTypeCheck :: bool
  runLinting :: bool
  updateDocs :: bool
  commitChanges :: bool

record RalphSettings =
  maxIterations :: int

text \<open>
  Log lines are kept as the template that produced them and its arguments. The runner
  hands every line to its log callback together with the highlight flag.
\<close>

datatype CopilotResult = Agent | Chat | Clipboard

datatype log_message =
    LogUpdatedRequirements
  | LogUpdatedSettings
  | LogTaskCompleted int
  | LogReachedMaximum int
  | LogStartedFreshChat
  | LogOpened CopilotResult
  | LogFailedToTrigger
  | LogAlreadyRunning
  | LogNoPendingTasksFound
  | LogStarting
  | LogWatching
  | LogPaused
  | LogResumed
  | LogAllCompleted
  | LogNoMoreTasks
  | LogTask int js_string
  | LogWaitingForCopilot
  | LogPrdChanged
  | LogStartingNextTaskIn nat

type_synonym log_line = "log_message \<times> bool"

text \<open>
  The fields of the class. Times are the milliseconds of \<open>Date.now()\<close>; numbers that
  only count are unbounded integers (a JavaScript number counts exactly up to \<open>2^53\<close>).
\<close>

record TaskRunner =
  requirements :: TaskRequirements
  settings :: RalphSettings
  taskHistory :: "TaskCompletion list"
  taskStartTime :: int
  currentTaskDescription :: js_string
  iterationCount :: int

text \<open>
  The field initializers; \<open>DEFAULT_REQUIREMENTS\<close> and \<open>DEFAULT_SETTINGS\<close> (types.ts)
  are parameters.
\<close>

definition new_TaskRunner :: "TaskRequirements \<Rightarrow> RalphSettings \<Rightarrow> TaskRunner" where
  "new_TaskRunner default_requirements default_settings =
     \<lparr> requirements = default_requirements,
       settings = default_settings,
       taskHistory = [],
       taskStartTime = 0,
       currentTaskDescription = [],
       iterationCount = 0 \<rparr>"

text \<open>
  A method that logs returns its value, the lines it handed to the log callback, and the
  runner after the call.
\<close>

definition setRequirements :: "TaskRequirements \<Rightarrow> TaskRunner \<Rightarrow> log_line list \<times> TaskRunner" where
  "setRequirements requirements' r =
     ([(LogUpdatedRequirements, False)], r\<lparr>requirements := requirements'\<rparr>)"

definition setSettings :: "RalphSettings \<Rightarrow> TaskRunner \<Rightarrow> log_line list \<times> TaskRunner" where
  "setSettings settings' r = ([(LogUpdatedSettings, False)], r\<lparr>settings := settings'\<rparr>)"

definition clearHistory :: "TaskRunner \<Rightarrow> TaskRunner" where
  "clearHistory r = r\<lparr>taskHistory := []\<rparr>"

definition getCurrentTask :: "TaskRunner \<Rightarrow> js_string" where
  "getCurrentTask r = currentTaskDescription r"

text \<open>\<open>now\<close> is the value of \<open>Date.now()\<close> at the call.\<close>

definition setCurrentTask :: "js_string \<Rightarrow> int \<Rightarrow> TaskRunner \<Rightarrow> TaskRunner" where
  "setCurrentTask description' now r =
     r\<lparr>currentTaskDescription := description', taskStartTime := now\<rparr>"

definition getIterationCount :: "TaskRunner \<Rightarrow> int" where
  "getIterationCount r = iterationCount r"

definition incrementIteration :: "TaskRunner \<Rightarrow> int \<times> TaskRunner" where
  "incrementIteration r =
     (iterationCount r + 1, r\<lparr>iterationCount := iterationCount r + 1\<rparr>)"

definition resetIterations :: "TaskRunner \<Rightarrow> TaskRunner" where
  "resetIterations r = r\<lparr>iterationCount := 0\<rparr>"

text \<open>
  \<open>now1\<close> and \<open>now2\<close> are the two readings of \<open>Date.now()\<close>, for the duration and for
  \<open>completedAt\<close>.
\<close>

definition recordTaskCompletion ::
    "int \<Rightarrow> int \<Rightarrow> TaskRunner \<Rightarrow> TaskCompletion \<times> log_line list \<times> TaskRunner" where
  "recordTaskCompletion now1 now2 r =
     (let duration' = now1 - taskStartTime r;
          completion = \<lparr> taskDescription = currentTaskDescription r,
                         completedAt = now2,
                         duration = duration',
                         iteration = iterationCount r \<rparr>
      in (completion,
          [(LogTaskCompleted duration', True)],
          r\<lparr>taskHistory := taskHistory r @ [completion]\<rparr>))"

definition checkIterationLimit :: "TaskRunner \<Rightarrow> bool \<times> log_line list \<times> TaskRunner" where
  "checkIterationLimit r =
     (if maxIterations (settings r) > 0 \<and> iterationCount r \<ge> maxIterations (settings r)
      then (True, [(LogReachedMaximum (maxIterations (settings r)), True)], r)
      else (False, [], r))"

text \<open>
  How the outside answers one dispatch: whether a fresh chat session was started, and the
  channel that took the prompt (\<open>None\<close> when building or delivering the prompt threw).
\<close>

record CopilotAnswer =
  freshSession :: bool
  opened :: "CopilotResult option"

definition triggerCopilotAgent ::
    "CopilotAnswer \<Rightarrow> js_string \<Rightarrow> TaskRunner \<Rightarrow> CopilotResult option \<times> log_line list \<times> TaskRunner" where
  "triggerCopilotAgent answer taskDescription' r =
     (let fresh = (if freshSession answer then [(LogStartedFreshChat, False)] else []) in
      case opened answer of
        Some method \<Rightarrow> (Some method, fresh @ [(LogOpened method, False)], r)
      | None \<Rightarrow> (None, fresh @ [(LogFailedToTrigger, False)], r))"

section \<open>The loop orchestrator\<close>

subsection \<open>Collaborators\<close>

text \<open>
  Modelled from the spec: the operator surface (uiManager.ts is not part of the sources at
  hand). It receives log lines, the completion history, the ledger statistics, status
  updates (status, iteration count, current task description), the countdown seconds and
  the session timing; each call replaces what was shown before, and a log line is added
  to the lines shown.
\<close>

datatype ui_status = UiIdle | UiRunning | UiPaused | UiWaiting

record UIManager =
  logs :: "log_line list"
  shownHistory :: "TaskCompletion list"
  shownStats :: TaskStats
  shownStatus :: "ui_status \<times> int \<times> js_string"
  shownIteration :: int
  shownTaskInfo :: js_string
  shownCountdown :: nat
  shownTiming :: "int \<times> TaskCompletion list \<times> nat"

text \<open>
  Modelled from the spec: the change watchers (fileWatchers.ts is not part of the sources
  at hand). The ledger watcher holds a subscription, an enabled flag that suppresses
  callbacks without tearing the subscription down, and the last content seen;
  \<open>dispose\<close> ends the subscription. The activity watcher and the ledger-creation
  watcher only hold a subscription.
\<close>

record PrdWatcher =
  prdWatching :: bool
  prdEnabled :: bool
  lastContent :: js_string

record FileWatcherManager =
  prdWatcher :: PrdWatcher
  activityWatching :: bool
  prdCreationWatching :: bool

definition prdWatcher_start :: "js_string \<Rightarrow> PrdWatcher \<Rightarrow> PrdWatcher" where
  "prdWatcher_start content p = p\<lparr>prdWatching := True, lastContent := content\<rparr>"

definition prdWatcher_enable :: "PrdWatcher \<Rightarrow> PrdWatcher" where
  "prdWatcher_enable p = p\<lparr>prdEnabled := True\<rparr>"

definition prdWatcher_disable :: "PrdWatcher \<Rightarrow> PrdWatcher" where
  "prdWatcher_disable p = p\<lparr>prdEnabled := False\<rparr>"

definition prdWatcher_updateContent :: "js_string \<Rightarrow> PrdWatcher \<Rightarrow> PrdWatcher" where
  "prdWatcher_updateContent content p = p\<lparr>lastContent := content\<rparr>"

definition fileWatchers_dispose :: "FileWatcherManager \<Rightarrow> FileWatcherManager" where
  "fileWatchers_dispose f =
     f\<lparr> prdWatcher := (prdWatcher f)\<lparr>prdWatching := False\<rparr>,
        activityWatching := False,
        prdCreationWatching := False \<rparr>"

text \<open>
  Modelled from the spec: the timers (timerManager.ts is not part of the sources at hand).
  The countdown is either not running or running from a number of seconds; \<open>stop\<close>
  cancels it. The inactivity monitor has a timer that is stopped, armed or paused and a
  waiting mark; \<open>recordActivity\<close> resets the timer without changing state,
  \<open>pause\<close> and \<open>resume\<close> stop and restart the timer and keep the waiting mark,
  \<open>stop\<close> disarms fully.
\<close>

type_synonym CountdownTimer = "nat option"

definition countdown_start :: "nat \<Rightarrow> CountdownTimer \<Rightarrow> CountdownTimer" where
  "countdown_start seconds c = Some seconds"

definition countdown_stop :: "CountdownTimer \<Rightarrow> CountdownTimer" where
  "countdown_stop c = None"

datatype timer_state = TimerStopped | TimerArmed | TimerPaused

record InactivityMonitor =
  monitorTimer :: timer_state
  monitorWaiting :: bool

definition monitor_start :: "InactivityMonitor \<Rightarrow> InactivityMonitor" where
  "monitor_start m = m\<lparr>monitorTimer := TimerArmed\<rparr>"

definition monitor_recordActivity :: "InactivityMonitor \<Rightarrow> InactivityMonitor" where
  "monitor_recordActivity m = m"

definition monitor_setWaiting :: "bool \<Rightarrow> InactivityMonitor \<Rightarrow> InactivityMonitor" where
  "monitor_setWaiting b m = m\<lparr>monitorWaiting := b\<rparr>"

definition monitor_pause :: "InactivityMonitor \<Rightarrow> InactivityMonitor" where
  "monitor_pause m = (if monitorTimer m = TimerArmed then m\<lparr>monitorTimer := TimerPaused\<rparr> else m)"

definition monitor_resume :: "InactivityMonitor \<Rightarrow> InactivityMonitor" where
  "monitor_resume m = (if monitorTimer m = TimerPaused then m\<lparr>monitorTimer := TimerArmed\<rparr> else m)"

definition monitor_stop :: "InactivityMonitor \<Rightarrow> InactivityMonitor" where
  "monitor_stop m = \<lparr>monitorTimer = TimerStopped, monitorWaiting = False\<rparr>"

subsection \<open>The orchestrator and the world around it\<close>

datatype LoopExecutionState = IDLE | RUNNING

record LoopOrchestrator =
  state :: LoopExecutionState
  isPaused :: bool
  sessionStartTime :: int
  ui :: UIManager
  taskRunner :: TaskRunner
  fileWatchers :: FileWatcherManager
  countdownTimer :: CountdownTimer
  inactivityMonitor :: InactivityMonitor

text \<open>
  The progress log is a file of lines: the header written when the file is created, and
  one line per entry, stamped with the time of the write. The only entry the orchestrator
  writes is the completion entry, with the task description and the rounded seconds.
\<close>

datatype progress_entry = CompletedEntry js_string int

datatype progress_line = HeaderLine | EntryLine int progress_entry

datatype notice = NoPendingTasksNotice | AllTasksCompletedNotice

text \<open>
  The world is the orchestrator together with what it reads and writes outside itself:
  the workspace with the ledger document, the clock, the progress log file (\<open>None\<close> while
  it does not exist) and whether writing it succeeds, the answer of the dispatch
  collaborator, the task descriptions dispatched so far and the notices shown. The
  orchestration runs on one thread; a handler is taken to run to its end (or to the start
  of its countdown) without the outside changing in between, so every read within one
  handler sees the same workspace and clock.
\<close>

record World = LoopOrchestrator +
  workspace :: Workspace
  clock :: int
  progressFile :: "progress_line list option"
  fsWritable :: bool
  copilot :: CopilotAnswer
  dispatched :: "js_string list"
  notices :: "notice list"

text \<open>The constructor: field initializers, fresh collaborators.\<close>

definition new_UIManager :: UIManager where
  "new_UIManager =
     \<lparr> logs = [], shownHistory = [], shownStats = \<lparr>total = 0, completed = 0, pending = 0\<rparr>,
       shownStatus = (UiIdle, 0, []), shownIteration = 0, shownTaskInfo = [],
       shownCountdown = 0, shownTiming = (0, [], 0) \<rparr>"

definition new_LoopOrchestrator :: "TaskRequirements \<Rightarrow> RalphSettings \<Rightarrow> LoopOrchestrator" where
  "new_LoopOrchestrator default_requirements default_settings =
     \<lparr> state = IDLE,
       isPaused = False,
       sessionStartTime = 0,
       ui = new_UIManager,
       taskRunner = new_TaskRunner default_requirements default_settings,
       fileWatchers = \<lparr> prdWatcher = \<lparr>prdWatching = False, prdEnabled = False, lastContent = []\<rparr>,
                        activityWatching = False, prdCreationWatching = False \<rparr>,
       countdownTimer = None,
       inactivityMonitor = \<lparr>monitorTimer = TimerStopped, monitorWaiting = False\<rparr> \<rparr>"

subsection \<open>Calls on the operator surface\<close>

definition addLog :: "log_message \<Rightarrow> bool \<Rightarrow> World \<Rightarrow> World" where
  "addLog message highlight w = w\<lparr>ui := (ui w)\<lparr>logs := logs (ui w) @ [(message, highlight)]\<rparr>\<rparr>"

text \<open>The log callback the constructor installs in the runner: every line goes to \<open>addLog\<close>.\<close>

fun deliverLogs :: "log_line list \<Rightarrow> World \<Rightarrow> World" where
  "deliverLogs [] w = w"
| "deliverLogs ((message, highlight) # rest) w = deliverLogs rest (addLog message highlight w)"

definition clearLogs :: "World \<Rightarrow> World" where
  "clearLogs w = w\<lparr>ui := (ui w)\<lparr>logs := []\<rparr>\<rparr>"

definition updateHistory :: "TaskCompletion list \<Rightarrow> World \<Rightarrow> World" where
  "updateHistory h w = w\<lparr>ui := (ui w)\<lparr>shownHistory := h\<rparr>\<rparr>"

definition updateStats :: "World \<Rightarrow> World" where
  "updateStats w = w\<lparr>ui := (ui w)\<lparr>shownStats := getTaskStatsAsync (workspace w)\<rparr>\<rparr>"

definition updateStatus :: "ui_status \<Rightarrow> int \<Rightarrow> js_string \<Rightarrow> World \<Rightarrow> World" where
  "updateStatus s n task w = w\<lparr>ui := (ui w)\<lparr>shownStatus := (s, n, task)\<rparr>\<rparr>"

definition setIteration :: "int \<Rightarrow> World \<Rightarrow> World" where
  "setIteration n w = w\<lparr>ui := (ui w)\<lparr>shownIteration := n\<rparr>\<rparr>"

definition setTaskInfo :: "js_string \<Rightarrow> World \<Rightarrow> World" where
  "setTaskInfo task w = w\<lparr>ui := (ui w)\<lparr>shownTaskInfo := task\<rparr>\<rparr>"

definition updateCountdown :: "nat \<Rightarrow> World \<Rightarrow> World" where
  "updateCountdown n w = w\<lparr>ui := (ui w)\<lparr>shownCountdown := n\<rparr>\<rparr>"

definition updateSessionTiming :: "int \<Rightarrow> TaskCompletion list \<Rightarrow> nat \<Rightarrow> World \<Rightarrow> World" where
  "updateSessionTiming start h n w = w\<lparr>ui := (ui w)\<lparr>shownTiming := (start, h, n)\<rparr>\<rparr>"

subsection \<open>The progress log (fileUtils.ts)\<close>

definition appendProgressAsync :: "progress_entry \<Rightarrow> World \<Rightarrow> bool \<times> World" where
  "appendProgressAsync entry w =
     (if \<not> hasRoot (workspace w) then (False, w)
      else if fsWritable w then
        (True, w\<lparr>progressFile :=
                   Some ((case progressFile w of None \<Rightarrow> [] | Some ls \<Rightarrow> ls) @
                         [EntryLine (clock w) entry])\<rparr>)
      else (False, w))"

definition ensureProgressFileAsync :: "World \<Rightarrow> bool \<times> World" where
  "ensureProgressFileAsync w =
     (if \<not> hasRoot (workspace w) then (False, w)
      else (case progressFile w of
              Some ls \<Rightarrow> (True, w)
            | None \<Rightarrow> if fsWritable w then (True, w\<lparr>progressFile := Some [HeaderLine]\<rparr>)
                      else (False, w)))"

subsection \<open>The methods of the orchestrator\<close>

definition updatePanelTiming :: "World \<Rightarrow> World" where
  "updatePanelTiming w =
     (let stats = getTaskStatsAsync (workspace w) in
      updateSessionTiming (sessionStartTime w) (taskHistory (taskRunner w)) (pending stats) w)"

definition stopLoop :: "World \<Rightarrow> World" where
  "stopLoop w =
     (let w = w\<lparr>fileWatchers := fileWatchers_dispose (fileWatchers w)\<rparr>;
          w = w\<lparr>countdownTimer := countdown_stop (countdownTimer w)\<rparr>;
          w = w\<lparr>inactivityMonitor := monitor_stop (inactivityMonitor w)\<rparr>;
          w = w\<lparr>state := IDLE\<rparr>;
          w = w\<lparr>isPaused := False\<rparr>;
          w = updateStatus UiIdle (getIterationCount (taskRunner w))
                (getCurrentTask (taskRunner w)) w;
          w = updateCountdown 0 w;
          w = updateSessionTiming 0 (taskHistory (taskRunner w)) 0 w
      in updateStats w)"

definition setupWatchers :: "World \<Rightarrow> World" where
  "setupWatchers w =
     (let initialContent = (case readPRDAsync (workspace w) of None \<Rightarrow> [] | Some c \<Rightarrow> c);
          w = w\<lparr>fileWatchers := (fileWatchers w)
                 \<lparr>prdWatcher := prdWatcher_start initialContent (prdWatcher (fileWatchers w))\<rparr>\<rparr>;
          w = addLog LogWatching False w;
          w = w\<lparr>fileWatchers := (fileWatchers w)\<lparr>activityWatching := True\<rparr>\<rparr>
      in w\<lparr>inactivityMonitor := monitor_start (inactivityMonitor w)\<rparr>)"

text \<open>
  The per-task cycle. The calls of \<open>stopLoop\<close> are not awaited in the source; what
  \<open>stopLoop\<close> does after its only \<open>await\<close> is the refresh of the statistics shown.
\<close>

definition runNextTask :: "World \<Rightarrow> World" where
  "runNextTask w =
     (if state w \<noteq> RUNNING \<or> isPaused w then w
      else
        let stats = getTaskStatsAsync (workspace w) in
        if pending stats = 0 then
          (let w = addLog LogAllCompleted True w;
               w = stopLoop w
           in w\<lparr>notices := notices w @ [AllTasksCompletedNotice]\<rparr>)
        else
          (case getNextTaskAsync (workspace w) of
             None \<Rightarrow> (let w = addLog LogNoMoreTasks False w in stopLoop w)
           | Some task \<Rightarrow>
               (let (limit, lines, r) = checkIterationLimit (taskRunner w);
                    w = deliverLogs lines (w\<lparr>taskRunner := r\<rparr>)
                in if limit then stopLoop w
                   else
                     (let (iteration', r) = incrementIteration (taskRunner w);
                          w = w\<lparr>taskRunner := r\<rparr>;
                          w = w\<lparr>taskRunner :=
                                 setCurrentTask (description task) (clock w) (taskRunner w)\<rparr>;
                          w = setIteration iteration' w;
                          w = setTaskInfo (description task) w;
                          w = updateStatus UiRunning iteration' (description task) w;
                          w = addLog (LogTask iteration' (description task)) False w;
                          (result, lines, r) =
                             triggerCopilotAgent (copilot w) (description task) (taskRunner w);
                          w = deliverLogs lines (w\<lparr>taskRunner := r\<rparr>);
                          w = (case result of
                                 None \<Rightarrow> w
                               | Some method \<Rightarrow>
                                   w\<lparr>dispatched := dispatched w @ [description task]\<rparr>);
                          w = w\<lparr>fileWatchers := (fileWatchers w)
                                 \<lparr>prdWatcher := prdWatcher_enable (prdWatcher (fileWatchers w))\<rparr>\<rparr>;
                          w = w\<lparr>inactivityMonitor :=
                                 monitor_setWaiting True (inactivityMonitor w)\<rparr>;
                          w = updateStatus UiWaiting iteration' (description task) w
                      in addLog LogWaitingForCopilot False w))))"

definition startLoop :: "World \<Rightarrow> World" where
  "startLoop w =
     (if state w = RUNNING then addLog LogAlreadyRunning False w
      else
        let stats = getTaskStatsAsync (workspace w) in
        if pending stats = 0 then
          (let w = addLog LogNoPendingTasksFound False w
           in w\<lparr>notices := notices w @ [NoPendingTasksNotice]\<rparr>)
        else
          (let (ok, w) = ensureProgressFileAsync w;
               w = w\<lparr>taskRunner := clearHistory (taskRunner w)\<rparr>;
               w = clearLogs w;
               w = updateHistory [] w;
               w = w\<lparr>state := RUNNING\<rparr>;
               w = w\<lparr>isPaused := False\<rparr>;
               w = w\<lparr>taskRunner := resetIterations (taskRunner w)\<rparr>;
               w = w\<lparr>sessionStartTime := clock w\<rparr>;
               w = updateStats w;
               w = addLog LogStarting False w;
               w = updatePanelTiming w;
               w = updateStatus UiRunning (getIterationCount (taskRunner w))
                     (getCurrentTask (taskRunner w)) w;
               w = setupWatchers w
           in runNextTask w))"

definition pauseLoop :: "World \<Rightarrow> World" where
  "pauseLoop w =
     (if state w \<noteq> RUNNING then w
      else
        let w = w\<lparr>isPaused := True\<rparr>;
            w = w\<lparr>fileWatchers := (fileWatchers w)
                   \<lparr>prdWatcher := prdWatcher_disable (prdWatcher (fileWatchers w))\<rparr>\<rparr>;
            w = w\<lparr>inactivityMonitor := monitor_pause (inactivityMonitor w)\<rparr>;
            w = w\<lparr>countdownTimer := countdown_stop (countdownTimer w)\<rparr>;
            w = addLog LogPaused False w
        in updateStatus UiPaused (getIterationCount (taskRunner w))
             (getCurrentTask (taskRunner w)) w)"

text \<open>
  \<open>resumeLoop\<close> is synchronous and ends by calling \<open>runNextTask\<close> without awaiting it:
  when \<open>resumeLoop\<close> returns, the cycle it started has only evaluated its guard and waits
  for the ledger to be read. The result is the world at the return and whether a cycle
  was started; \<open>resumeLoop_cycle\<close> is the world once that cycle has run.
\<close>

definition resumeLoop :: "World \<Rightarrow> World \<times> bool" where
  "resumeLoop w =
     (if \<not> isPaused w then (w, False)
      else
        let w = w\<lparr>isPaused := False\<rparr>;
            w = w\<lparr>inactivityMonitor := monitor_resume (inactivityMonitor w)\<rparr>;
            w = addLog LogResumed False w;
            w = updateStatus UiRunning (getIterationCount (taskRunner w))
                  (getCurrentTask (taskRunner w)) w
        in (w, True))"

definition resumeLoop_cycle :: "World \<Rightarrow> World" where
  "resumeLoop_cycle w =
     (let (w, started) = resumeLoop w in if started then runNextTask w else w)"

text \<open>
  \<open>startCountdown\<close> up to the start of the countdown, and the rest of it, which runs
  when the promise of the countdown resolves (the countdown has run out, or was stopped).
  \<open>REVIEW_COUNTDOWN_SECONDS\<close> (types.ts) is a parameter.
\<close>

definition startCountdown :: "nat \<Rightarrow> World \<Rightarrow> World" where
  "startCountdown REVIEW_COUNTDOWN_SECONDS w =
     (let w = addLog (LogStartingNextTaskIn REVIEW_COUNTDOWN_SECONDS) False w
      in w\<lparr>countdownTimer := countdown_start REVIEW_COUNTDOWN_SECONDS (countdownTimer w)\<rparr>)"

definition startCountdown_resolved :: "World \<Rightarrow> World" where
  "startCountdown_resolved w =
     (let w = w\<lparr>countdownTimer := None\<rparr>
      in if state w = RUNNING \<and> \<not> isPaused w then
           (let w = updateStats w in runNextTask w)
         else w)"

text \<open>
  The reaction to a change of the ledger document. Nothing in the model throws, so the
  \<open>catch\<close> branch of the source has no counterpart. \<open>Math.round\<close> of the duration in
  seconds rounds halves up.
\<close>

definition handlePrdChange :: "nat \<Rightarrow> js_string \<Rightarrow> World \<Rightarrow> World" where
  "handlePrdChange REVIEW_COUNTDOWN_SECONDS newContent w =
     (let w = addLog LogPrdChanged False w;
          w = w\<lparr>inactivityMonitor := monitor_recordActivity (inactivityMonitor w)\<rparr>;
          w = w\<lparr>fileWatchers := (fileWatchers w)
                 \<lparr>prdWatcher := prdWatcher_updateContent newContent (prdWatcher (fileWatchers w))\<rparr>\<rparr>;
          task = getNextTaskAsync (workspace w);
          currentTask = getCurrentTask (taskRunner w)
      in if (case task of None \<Rightarrow> True | Some t \<Rightarrow> description t \<noteq> currentTask) then
           (let w = w\<lparr>fileWatchers := (fileWatchers w)
                       \<lparr>prdWatcher := prdWatcher_disable (prdWatcher (fileWatchers w))\<rparr>\<rparr>;
                w = w\<lparr>inactivityMonitor := monitor_stop (inactivityMonitor w)\<rparr>;
                (completion, lines, r) = recordTaskCompletion (clock w) (clock w) (taskRunner w);
                w = deliverLogs lines (w\<lparr>taskRunner := r\<rparr>);
                progressEntry = CompletedEntry (taskDescription completion)
                                  ((duration completion + 500) div 1000);
                (ok, w) = appendProgressAsync progressEntry w;
                w = updateHistory (taskHistory (taskRunner w)) w;
                w = updatePanelTiming w
            in startCountdown REVIEW_COUNTDOWN_SECONDS w)
         else w)"

subsection \<open>A run used in the examples\<close>

text \<open>
  The normal run of the specification at the moment the ledger watcher fires: the loop
  is running, \<open>task1\<close> was dispatched as iteration 1 at time 1000 and is in flight, the
  progress log holds its header, and the agent has just marked \<open>task1\<close> complete in the
  ledger, 90 seconds later.
\<close>

definition example_requirements :: TaskRequirements where
  "example_requirements =
     \<lparr> writeTests = False, runTests = False, runTypeCheck = False,
       runLinting = False, updateDocs = False, commitChanges = False \<rparr>"

definition ledger_after :: js_string where
  "ledger_after = js ''- [x] task1'' @ [0x0A] @ js ''- [ ] task2''"

definition example_world :: World where
  "example_world =
     \<lparr> state = RUNNING,
       isPaused = False,
       sessionStartTime = 1000,
       ui = new_UIManager,
       taskRunner =
         \<lparr> requirements = example_requirements, settings = \<lparr>maxIterations = 0\<rparr>,
           taskHistory = [], taskStartTime = 1000,
           currentTaskDescription = js ''task1'', iterationCount = 1 \<rparr>,
       fileWatchers =
         \<lparr> prdWatcher = \<lparr>prdWatching = True, prdEnabled = True,
             lastContent = js ''- [ ] task1'' @ [0x0A] @ js ''- [ ] task2''\<rparr>,
           activityWatching = True, prdCreationWatching = False \<rparr>,
       countdownTimer = None,
       inactivityMonitor = \<lparr>monitorTimer = TimerArmed, monitorWaiting = True\<rparr>,
       workspace = \<lparr>hasRoot = True,
          prdFile = FileContent ledger_after\<rparr>,
       clock = 91000,
       progressFile = Some [HeaderLine],
       fsWritable = True,
       copilot = \<lparr>freshSession = True, opened = Some Agent\<rparr>,
       dispatched = [js ''task1''],
       notices = [] \<rparr>"

section \<open>Properties of the task ledger\<close>

subsection \<open>Strings and the task pattern\<close>

lemma split_newline_nonempty: "split_newline s \<noteq> []"
  by (induction s) (auto split: list.splits)

lemma split_newline_single: "0x0A \<notin> set s \<Longrightarrow> split_newline s = [s]"
  by (induction s) auto

lemma whitespace_not_terminator: "isWhiteSpace c \<Longrightarrow> \<not> isLineTerminator c"
  by (auto simp: isWhiteSpace_def isLineTerminator_def)

lemma dropWhile_fix: "xs = [] \<or> \<not> P (hd xs) \<Longrightarrow> dropWhile P xs = xs"
  by (cases xs) auto

lemma hd_dropWhile': "dropWhile P xs = [] \<or> \<not> P (hd (dropWhile P xs))"
  by (induction xs) auto

lemma trim_ends: "trim s = [] \<or> (\<not> isSpace (hd (trim s)) \<and> \<not> isSpace (last (trim s)))"
proof (cases "dropWhile isSpace s = []")
  case True
  show ?thesis unfolding trim_def True by simp
next
  case False
  define u where "u = dropWhile isSpace s"
  define v where "v = dropWhile isSpace (rev u)"
  have u: "u \<noteq> []" "\<not> isSpace (hd u)"
    using False hd_dropWhile'[of isSpace s] by (auto simp: u_def)
  have "last (rev u) = hd u" using u by (simp add: last_rev)
  have v_ne: "v \<noteq> []"
  proof
    assume "v = []"
    then have "\<forall>x\<in>set (rev u). isSpace x" by (simp add: v_def)
    moreover have "hd u \<in> set (rev u)" using u by simp
    ultimately show False using u by blast
  qed
  have v_hd: "\<not> isSpace (hd v)" using v_ne hd_dropWhile'[of isSpace "rev u"] by (auto simp: v_def)
  obtain p where p: "rev u = p @ v" unfolding v_def
    by (metis takeWhile_dropWhile_id)
  have "last v = last (rev u)" using p v_ne by simp
  then have v_last: "last v = hd u" using u by (simp add: last_rev)
  have "trim s = rev v" by (simp add: trim_def u_def v_def)
  then show ?thesis using v_ne v_hd v_last u by (simp add: hd_rev last_rev)
qed

lemma trim_idem: "trim (trim s) = trim s"
proof (cases "trim s = []")
  case True
  have "trim [] = []" unfolding trim_def by simp
  then show ?thesis using True by simp
next
  case False
  then have e: "\<not> isSpace (hd (trim s))" "\<not> isSpace (last (trim s))"
    using trim_ends[of s] by auto
  have 1: "dropWhile isSpace (trim s) = trim s"
    using e False by (simp add: dropWhile_fix)
  have 2: "dropWhile isSpace (rev (trim s)) = rev (trim s)"
    using e False by (simp add: dropWhile_fix hd_rev)
  show ?thesis
    unfolding trim_def[of "trim s"] 1 2 by simp
qed

lemma trim_space_cons: "isSpace c \<Longrightarrow> trim (c # cs) = trim cs"
  by (simp add: trim_def)

lemma trim_all_space: "\<forall>c\<in>set s. isSpace c \<Longrightarrow> trim s = []"
proof -
  assume "\<forall>c\<in>set s. isSpace c"
  then have d: "dropWhile isSpace s = []" by simp
  show ?thesis unfolding trim_def d by simp
qed

lemma match_text_plain:
  "\<forall>c\<in>set s. \<not> isLineTerminator c \<Longrightarrow> s \<noteq> [] \<Longrightarrow> match_text s = Some s"
  by (cases s) (auto simp: match_text_def)

lemma match_tail_plain:
  "\<forall>c\<in>set s. \<not> isLineTerminator c \<Longrightarrow> s \<noteq> [] \<Longrightarrow>
   \<exists>d. match_tail s = Some d \<and> trim d = trim s"
proof (induction s)
  case Nil
  then show ?case by simp
next
  case (Cons c cs)
  show ?case
  proof (cases "isSpace c")
    case sp: True
    show ?thesis
    proof (cases "cs = []")
      case True
      then show ?thesis using Cons.prems sp by (simp add: match_text_def)
    next
      case False
      then obtain d where "match_tail cs = Some d" "trim d = trim cs"
        using Cons by auto
      then show ?thesis using sp by (simp add: trim_space_cons)
    qed
  next
    case False
    then show ?thesis using Cons.prems match_text_plain[of "c # cs"] by simp
  qed
qed

lemma exec_from_plain:
  "\<forall>c\<in>set s. \<not> isLineTerminator c \<Longrightarrow> exec_from False s = None"
  by (induction s) auto

lemma parse_loop_lines:
  "t \<in> set (parse_loop i ls) \<Longrightarrow>
   i < lineNumber t \<and> lineNumber t \<le> i + length ls \<and> rawLine t = ls ! (lineNumber t - Suc i)"
proof (induction ls arbitrary: i)
  case Nil
  then show ?case by simp
next
  case (Cons l ls)
  show ?case
  proof (cases "t \<in> set (parse_loop (Suc i) ls)")
    case True
    then have "Suc i < lineNumber t \<and> lineNumber t \<le> Suc i + length ls \<and>
               rawLine t = ls ! (lineNumber t - Suc (Suc i))"
      using Cons.IH by blast
    moreover from this have "lineNumber t - Suc i = Suc (lineNumber t - Suc (Suc i))"
      by arith
    ultimately show ?thesis by simp
  next
    case False
    then show ?thesis using Cons.prems by (auto split: option.splits)
  qed
qed

lemma parse_loop_sorted: "sorted_wrt (\<lambda>a b. lineNumber a < lineNumber b) (parse_loop i ls)"
proof (induction ls arbitrary: i)
  case Nil
  then show ?case by simp
next
  case (Cons l ls)
  have "\<forall>t\<in>set (parse_loop (Suc i) ls). Suc i < lineNumber t"
    using parse_loop_lines by blast
  then show ?case using Cons.IH[of "Suc i"] by (auto split: option.splits)
qed

lemma parse_loop_rawLines:
  "map rawLine (parse_loop i ls) = filter (\<lambda>l. task_pattern_exec l \<noteq> None) ls"
  by (induction ls arbitrary: i) (auto split: option.splits)

lemma parse_loop_trimmed:
  "t \<in> set (parse_loop i ls) \<Longrightarrow> trim (description t) = description t"
  by (induction ls arbitrary: i) (auto split: option.splits simp: trim_idem)

lemma find_first_by_key:
  "sorted_wrt (\<lambda>a b. f a < (f b :: nat)) xs \<Longrightarrow>
   (List.find P xs = Some t) = (t \<in> set xs \<and> P t \<and> (\<forall>u\<in>set xs. P u \<longrightarrow> f t \<le> f u))"
proof (induction xs)
  case Nil
  then show ?case by simp
next
  case (Cons x xs)
  then have later: "\<forall>u\<in>set xs. f x < f u" and srt: "sorted_wrt (\<lambda>a b. f a < f b) xs"
    by auto
  show ?case
  proof (cases "P x")
    case True
    then show ?thesis using later by (auto simp: not_le[symmetric] dest: leD)
  next
    case False
    then show ?thesis using Cons.IH[OF srt] later by auto
  qed
qed

lemma not_isOpen: "(\<not> isOpen t) = (status t = COMPLETE \<or> status t = BLOCKED)"
  by (cases "status t") (auto simp: isOpen_def)

lemma parseTasksAsync_sorted:
  "sorted_wrt (\<lambda>a b. lineNumber a < lineNumber b) (parseTasksAsync w)"
  by (simp add: parseTasksAsync_def parseTasksFromContent_def parse_loop_sorted
      split: option.splits)

lemma bullet_plain: "isBullet b \<Longrightarrow> \<not> isLineTerminator b \<and> \<not> isSpace b \<and> b \<noteq> 0x0A"
  by (auto simp: isBullet_def isLineTerminator_def isSpace_def isWhiteSpace_def)

lemma marker_plain: "isMarker m \<Longrightarrow> \<not> isLineTerminator m \<and> m \<noteq> 0x0A"
  by (auto simp: isMarker_def isLineTerminator_def)

lemma line_feed_terminator: "isLineTerminator 0x0A"
  by (simp add: isLineTerminator_def)

lemma decimal_one: "js ''task-'' @ decimal (Suc 0) = js ''task-1''"
  by (simp add: js_def decimal.simps)

lemma parse_bullet_line:
  assumes b: "isBullet b" and m: "isMarker m"
    and R: "\<forall>c\<in>set R. \<not> isLineTerminator c" and ne: "R \<noteq> []"
  shows "parseTasksFromContent (b # 0x20 # 0x5B # m # 0x5D # R) =
           [\<lparr> task_id = js ''task-1'', description = trim R,
              status = marker_status (toLowerCase [m]), lineNumber = 1,
              rawLine = b # 0x20 # 0x5B # m # 0x5D # R \<rparr>]"
proof -
  let ?line = "b # 0x20 # 0x5B # m # 0x5D # R"
  have "0x0A \<notin> set R" using R line_feed_terminator by blast
  then have "0x0A \<notin> set ?line"
    using bullet_plain[OF b] marker_plain[OF m] by simp
  then have split: "split_newline ?line = [?line]" by (rule split_newline_single)
  obtain d where d: "match_tail R = Some d" "trim d = trim R"
    using match_tail_plain[OF R ne] by blast
  have "dropWhile isSpace (0x20 # 0x5B # m # 0x5D # R) = 0x5B # m # 0x5D # R"
    by (simp add: isSpace_def isWhiteSpace_def isLineTerminator_def)
  then have "match_here ?line = Some ([m], d)"
    using b m d by (simp add: match_here_def)
  then have "task_pattern_exec ?line = Some ([m], d)"
    by (simp add: task_pattern_exec_def)
  then show ?thesis
    unfolding parseTasksFromContent_def split using d decimal_one by simp
qed

lemma match_here_not_bullet: "\<not> isBullet c \<Longrightarrow> match_here (c # cs) = None"
  by (simp add: match_here_def)

lemma parse_non_marker_line:
  assumes b: "isBullet b" and m: "\<not> isMarker m"
    and T: "\<forall>c\<in>set T. \<not> isLineTerminator c"
  shows "parseTasksFromContent (b # 0x20 # 0x5B # m # 0x5D # 0x20 # T) = []"
proof -
  have nl: "0x0A \<notin> set T" using T line_feed_terminator by blast
  have sp: "dropWhile isSpace (0x20 # 0x5B # m # 0x5D # 0x20 # T) = 0x5B # m # 0x5D # 0x20 # T"
    "dropWhile isSpace [0x20, 0x5B] = [0x5B]"
    by (simp_all add: isSpace_def isWhiteSpace_def isLineTerminator_def)
  have nb: "\<not> isBullet 0x5D" "\<not> isBullet 0x20" "\<not> isBullet 0x5B"
    by (simp_all add: isBullet_def)
  have nt: "\<not> isLineTerminator 0x20" "\<not> isLineTerminator 0x5B" "\<not> isLineTerminator 0x5D"
    "\<not> isLineTerminator b"
    using bullet_plain[OF b] by (simp_all add: isLineTerminator_def)
  have here: "match_here (b # 0x20 # 0x5B # m # 0x5D # 0x20 # T) = None"
    "match_here [b, 0x20, 0x5B] = None"
    using b m sp by (simp_all add: match_here_def)
  have tail: "exec_from False T = None"
    using exec_from_plain[OF T] .
  note facts = here tail nt match_here_not_bullet[OF nb(1)] match_here_not_bullet[OF nb(2)]
    match_here_not_bullet[OF nb(3)]
  show ?thesis
  proof (cases "m = 0x0A")
    case True
    have "split_newline (b # 0x20 # 0x5B # m # 0x5D # 0x20 # T) = [[b, 0x20, 0x5B], 0x5D # 0x20 # T]"
      using True nl bullet_plain[OF b] split_newline_single[of "0x5D # 0x20 # T"] by simp
    moreover have "task_pattern_exec [b, 0x20, 0x5B] = None"
      by (simp add: task_pattern_exec_def facts)
    moreover have "task_pattern_exec (0x5D # 0x20 # T) = None"
      by (simp add: task_pattern_exec_def facts)
    ultimately show ?thesis by (simp add: parseTasksFromContent_def)
  next
    case False
    then have "0x0A \<notin> set (b # 0x20 # 0x5B # m # 0x5D # 0x20 # T)"
      using nl bullet_plain[OF b] by simp
    then have split: "split_newline (b # 0x20 # 0x5B # m # 0x5D # 0x20 # T) =
        [b # 0x20 # 0x5B # m # 0x5D # 0x20 # T]"
      by (rule split_newline_single)
    have "task_pattern_exec (b # 0x20 # 0x5B # m # 0x5D # 0x20 # T) = None"
      by (simp add: task_pattern_exec_def facts)
    then show ?thesis unfolding parseTasksFromContent_def split by simp
  qed
qed

lemma marker_statuses:
  "marker_status (toLowerCase [0x20]) = PENDING"
  "marker_status (toLowerCase [0x78]) = COMPLETE"
  "marker_status (toLowerCase [0x58]) = COMPLETE"
  "marker_status (toLowerCase [0x7E]) = IN_PROGRESS"
  "marker_status (toLowerCase [0x21]) = BLOCKED"
  by (simp_all add: marker_status_def toLowerCase_def js_def)

lemma terminator_is_space: "isLineTerminator c \<Longrightarrow> isSpace c"
  by (simp add: isSpace_def)

lemma match_tail_exists:
  "\<exists>c\<in>set s. \<not> isLineTerminator c \<Longrightarrow> \<exists>d. match_tail s = Some d"
proof (induction s)
  case Nil
  then show ?case by simp
next
  case (Cons c cs)
  show ?case
  proof (cases "match_tail cs")
    case (Some d)
    then show ?thesis by (simp add: match_text_def terminator_is_space)
  next
    case None
    then have "\<not> (\<exists>x\<in>set cs. \<not> isLineTerminator x)" using Cons.IH by auto
    then have "\<not> isLineTerminator c" using Cons.prems by auto
    then show ?thesis using None by (simp add: match_text_def)
  qed
qed

lemma match_tail_none:
  "\<forall>c\<in>set s. isLineTerminator c \<Longrightarrow> match_tail s = None"
  by (induction s) (auto simp: match_text_def terminator_is_space)

lemma match_tail_result:
  "match_tail s = Some d \<Longrightarrow>
   trim d = trim (takeWhile (\<lambda>x. \<not> isLineTerminator x) (dropWhile isSpace s))"
proof (induction s arbitrary: d)
  case Nil
  then show ?case by simp
next
  case (Cons c cs)
  show ?case
  proof (cases "isSpace c")
    case sp: True
    show ?thesis
    proof (cases "match_tail cs")
      case (Some d')
      then have "d = d'" using Cons.prems sp by simp
      then show ?thesis using Cons.IH[OF Some] sp by simp
    next
      case None
      then have all: "\<forall>x\<in>set cs. isLineTerminator x" using match_tail_exists[of cs] by auto
      then have t: "takeWhile (\<lambda>x. \<not> isLineTerminator x) cs = []"
        by (cases cs) auto
      have "\<forall>x\<in>set cs. isSpace x" using all terminator_is_space by blast
      then have dw: "dropWhile isSpace cs = []" by simp
      have "match_text (c # cs) = Some d" using Cons.prems sp None by simp
      then have "d = [c]" using t by (simp add: match_text_def split: if_splits)
      then have "trim d = []" using sp trim_all_space[of "[c]"] by simp
      moreover have "dropWhile isSpace (c # cs) = []" using sp dw by simp
      then have "trim (takeWhile (\<lambda>x. \<not> isLineTerminator x) (dropWhile isSpace (c # cs))) = []"
        unfolding trim_def by simp
      ultimately show ?thesis by simp
    qed
  next
    case False
    then have "match_text (c # cs) = Some d" using Cons.prems by simp
    then show ?thesis using False by (simp add: match_text_def split: if_splits)
  qed
qed

lemma exec_from_terminators:
  "\<forall>c\<in>set s. isLineTerminator c \<Longrightarrow> exec_from bol s = None"
proof (induction s arbitrary: bol)
  case Nil
  then show ?case by simp
next
  case (Cons c cs)
  then have "\<not> isBullet c" by (auto simp: isBullet_def isLineTerminator_def)
  then show ?case using Cons by (simp add: match_here_not_bullet)
qed

lemma marker_plain': "isMarker m \<Longrightarrow> \<not> isBullet m"
  by (auto simp: isMarker_def isBullet_def)

lemma parse_loop_bracket_line:
  assumes b: "isBullet b" and m: "isMarker m"
  shows "(\<exists>c\<in>set R. \<not> isLineTerminator c) \<Longrightarrow>
           parse_loop i [b # 0x20 # 0x5B # m # 0x5D # R] =
             [\<lparr> task_id = js ''task-'' @ decimal (i + 1),
                description = trim (takeWhile (\<lambda>x. \<not> isLineTerminator x) (dropWhile isSpace R)),
                status = marker_status (toLowerCase [m]), lineNumber = i + 1,
                rawLine = b # 0x20 # 0x5B # m # 0x5D # R \<rparr>]"
    and "(\<forall>c\<in>set R. isLineTerminator c) \<Longrightarrow> parse_loop i [b # 0x20 # 0x5B # m # 0x5D # R] = []"
proof -
  let ?line = "b # 0x20 # 0x5B # m # 0x5D # R"
  have dw: "dropWhile isSpace (0x20 # 0x5B # m # 0x5D # R) = 0x5B # m # 0x5D # R"
    by (simp add: isSpace_def isWhiteSpace_def isLineTerminator_def)
  {
    assume "\<exists>c\<in>set R. \<not> isLineTerminator c"
    then obtain d where d: "match_tail R = Some d" using match_tail_exists by blast
    have "match_here ?line = Some ([m], d)"
      using b m d dw by (simp add: match_here_def)
    then have "task_pattern_exec ?line = Some ([m], d)"
      by (simp add: task_pattern_exec_def)
    then show "parse_loop i [?line] =
             [\<lparr> task_id = js ''task-'' @ decimal (i + 1),
                description = trim (takeWhile (\<lambda>x. \<not> isLineTerminator x) (dropWhile isSpace R)),
                status = marker_status (toLowerCase [m]), lineNumber = i + 1,
                rawLine = ?line \<rparr>]"
      using match_tail_result[OF d] by simp
  }
  {
    assume all: "\<forall>c\<in>set R. isLineTerminator c"
    have nt: "\<not> isLineTerminator 0x20" "\<not> isLineTerminator 0x5B" "\<not> isLineTerminator 0x5D"
      "\<not> isLineTerminator b" "\<not> isLineTerminator m"
      using bullet_plain[OF b] marker_plain[OF m] by (simp_all add: isLineTerminator_def)
    have here: "match_here ?line = None"
      using b m dw match_tail_none[OF all] by (simp add: match_here_def)
    have "task_pattern_exec ?line = None"
      by (simp add: task_pattern_exec_def here nt exec_from_terminators[OF all])
    then show "parse_loop i [?line] = []" by simp
  }
qed

lemma non_marker_exec:
  assumes b: "isBullet b" and m: "\<not> isMarker m"
  shows "task_pattern_exec (b # 0x20 # 0x5B # m # 0x5D # 0x20 # T) = exec_from False T"
proof -
  have dw: "dropWhile isSpace (0x20 # 0x5B # m # 0x5D # 0x20 # T) = 0x5B # m # 0x5D # 0x20 # T"
    by (simp add: isSpace_def isWhiteSpace_def isLineTerminator_def)
  have nb: "\<not> isBullet 0x5D" "\<not> isBullet 0x20" "\<not> isBullet 0x5B"
    by (simp_all add: isBullet_def)
  have nt: "\<not> isLineTerminator 0x20" "\<not> isLineTerminator 0x5B" "\<not> isLineTerminator 0x5D"
    "\<not> isLineTerminator b"
    using bullet_plain[OF b] by (simp_all add: isLineTerminator_def)
  have here: "match_here (b # 0x20 # 0x5B # m # 0x5D # 0x20 # T) = None"
    using b m dw by (simp add: match_here_def)
  show ?thesis
    by (simp add: task_pattern_exec_def here nt match_here_not_bullet[OF nb(1)])
qed

lemma parse_loop_append:
  "parse_loop j (xs @ ys) = parse_loop j xs @ parse_loop (j + length xs) ys"
  by (induction xs arbitrary: j) (auto split: option.splits)

lemma trim_plain_text:
  "\<forall>c\<in>set T. \<not> isLineTerminator c \<Longrightarrow>
   trim (takeWhile (\<lambda>c. \<not> isLineTerminator c) (dropWhile isSpace T)) = trim T"
proof -
  assume T: "\<forall>c\<in>set T. \<not> isLineTerminator c"
  have "\<forall>c\<in>set (dropWhile isSpace T). \<not> isLineTerminator c"
    using T set_dropWhileD by fastforce
  then have tw: "takeWhile (\<lambda>c. \<not> isLineTerminator c) (dropWhile isSpace T) = dropWhile isSpace T"
    by (simp add: takeWhile_eq_all_conv)
  show ?thesis unfolding tw trim_def by (simp add: dropWhile_idem)
qed

lemma single_line_document:
  "0x0A \<notin> set l \<Longrightarrow> parseTasksFromContent l = parse_loop 0 [l]"
  by (simp add: parseTasksFromContent_def split_newline_single)

subsection \<open>Claims about the task ledger\<close>

text \<open>
  Claim C3. For every ledger document, parsing it and taking the next task gives the first
  task in line order whose status is Pending or InProgress, and gives none exactly when
  every parsed task is Complete or Blocked (in particular when there are no tasks).
  The parsed tasks are listed by strictly increasing line number, and the line number of a
  task is the position (from 1) of its raw line among the lines of the document; the next
  task is the parsed task that is Pending or InProgress and whose line number is least
  among those.
\<close>

theorem next_task_is_first_open:
  "sorted_wrt (\<lambda>a b. lineNumber a < lineNumber b) (parseTasksAsync w) \<and>
   (\<forall>content. readPRDAsync w = Some content \<longrightarrow>
      (\<forall>t\<in>set (parseTasksAsync w).
         1 \<le> lineNumber t \<and> lineNumber t \<le> length (split_newline content) \<and>
         rawLine t = split_newline content ! (lineNumber t - 1))) \<and>
   (getNextTaskAsync w = None) =
     (\<forall>t\<in>set (parseTasksAsync w). status t = COMPLETE \<or> status t = BLOCKED) \<and>
   (\<forall>t. (getNextTaskAsync w = Some t) =
      (t \<in> set (parseTasksAsync w) \<and> (status t = PENDING \<or> status t = IN_PROGRESS) \<and>
       (\<forall>u\<in>set (parseTasksAsync w).
          status u = PENDING \<or> status u = IN_PROGRESS \<longrightarrow> lineNumber t \<le> lineNumber u)))"
proof (intro conjI)
  show "sorted_wrt (\<lambda>a b. lineNumber a < lineNumber b) (parseTasksAsync w)"
    by (rule parseTasksAsync_sorted)
  show "\<forall>content. readPRDAsync w = Some content \<longrightarrow>
      (\<forall>t\<in>set (parseTasksAsync w).
         1 \<le> lineNumber t \<and> lineNumber t \<le> length (split_newline content) \<and>
         rawLine t = split_newline content ! (lineNumber t - 1))"
  proof (intro allI impI ballI)
    fix content t
    assume r: "readPRDAsync w = Some content" and t: "t \<in> set (parseTasksAsync w)"
    then have "t \<in> set (parse_loop 0 (split_newline content))"
      by (simp add: parseTasksAsync_def parseTasksFromContent_def split: if_splits)
    from parse_loop_lines[OF this]
    show "1 \<le> lineNumber t \<and> lineNumber t \<le> length (split_newline content) \<and>
         rawLine t = split_newline content ! (lineNumber t - 1)"
      by simp
  qed
  show "(getNextTaskAsync w = None) =
     (\<forall>t\<in>set (parseTasksAsync w). status t = COMPLETE \<or> status t = BLOCKED)"
    by (auto simp: getNextTaskAsync_def find_None_iff not_isOpen)
  show "\<forall>t. (getNextTaskAsync w = Some t) =
      (t \<in> set (parseTasksAsync w) \<and> (status t = PENDING \<or> status t = IN_PROGRESS) \<and>
       (\<forall>u\<in>set (parseTasksAsync w).
          status u = PENDING \<or> status u = IN_PROGRESS \<longrightarrow> lineNumber t \<le> lineNumber u))"
  proof
    fix t
    show "(getNextTaskAsync w = Some t) =
      (t \<in> set (parseTasksAsync w) \<and> (status t = PENDING \<or> status t = IN_PROGRESS) \<and>
       (\<forall>u\<in>set (parseTasksAsync w).
          status u = PENDING \<or> status u = IN_PROGRESS \<longrightarrow> lineNumber t \<le> lineNumber u))"
      using find_first_by_key[OF parseTasksAsync_sorted, of isOpen w t]
      by (simp add: getNextTaskAsync_def isOpen_def)
  qed
qed

theorem next_task_is_first_open_witness:
  "getNextTaskAsync \<lparr>hasRoot = True, prdFile = FileContent
      (js ''- [x] a'' @ [0x0A] @ js ''- [ ] b'' @ [0x0A] @ js ''- [~] c'')\<rparr> =
     Some \<lparr> task_id = js ''task-2'', description = js ''b'', status = PENDING,
            lineNumber = 2, rawLine = js ''- [ ] b'' \<rparr> \<and>
   getNextTaskAsync \<lparr>hasRoot = True, prdFile = FileContent
      (js ''- [x] a'' @ [0x0A] @ js ''- [!] b'')\<rparr> = None"
proof -
  let ?w = "\<lparr>hasRoot = True, prdFile = FileContent
      (js ''- [x] a'' @ [0x0A] @ js ''- [ ] b'' @ [0x0A] @ js ''- [~] c'')\<rparr>"
  let ?v = "\<lparr>hasRoot = True, prdFile = FileContent (js ''- [x] a'' @ [0x0A] @ js ''- [!] b'')\<rparr>"
  note defs = parseTasksAsync_def readPRDAsync_def parseTasksFromContent_def js_def
    task_pattern_exec_def match_here_def isBullet_def isSpace_def isWhiteSpace_def
    isLineTerminator_def isMarker_def match_text_def trim_def toLowerCase_def
    marker_status_def decimal.simps
  have p: "parseTasksAsync ?w =
     [\<lparr> task_id = js ''task-1'', description = js ''a'', status = COMPLETE,
         lineNumber = 1, rawLine = js ''- [x] a'' \<rparr>,
      \<lparr> task_id = js ''task-2'', description = js ''b'', status = PENDING,
         lineNumber = 2, rawLine = js ''- [ ] b'' \<rparr>,
      \<lparr> task_id = js ''task-3'', description = js ''c'', status = IN_PROGRESS,
         lineNumber = 3, rawLine = js ''- [~] c'' \<rparr>]"
    by (simp add: defs)
  have q: "parseTasksAsync ?v =
     [\<lparr> task_id = js ''task-1'', description = js ''a'', status = COMPLETE,
         lineNumber = 1, rawLine = js ''- [x] a'' \<rparr>,
      \<lparr> task_id = js ''task-2'', description = js ''b'', status = BLOCKED,
         lineNumber = 2, rawLine = js ''- [!] b'' \<rparr>]"
    by (simp add: defs)
  have 1: "getNextTaskAsync ?w =
     Some \<lparr> task_id = js ''task-2'', description = js ''b'', status = PENDING,
            lineNumber = 2, rawLine = js ''- [ ] b'' \<rparr>"
    using next_task_is_first_open[of ?w] unfolding p by simp
  have 2: "getNextTaskAsync ?v = None"
    using next_task_is_first_open[of ?v] unfolding q by simp
  show ?thesis using 1 2 by simp
qed

text \<open>
  Claim C4, as amended. A line \<open>- [m] T\<close> with bullet \<open>-\<close> or \<open>*\<close>, at any place in a
  document and for any text \<open>T\<close>, gives exactly one task, with status Pending, Complete,
  Complete, InProgress, Blocked for the markers space, \<open>x\<close>, \<open>X\<close>, \<open>~\<close>, \<open>!\<close>; its
  raw line is the line itself and its description is the trimmed text up to the first line
  terminator after the leading white space of \<open>T\<close>, which is \<open>T\<close> trimmed when \<open>T\<close>
  holds no line terminator. With any other single character in the bracket the bracket
  itself never makes the line a task line: the line is parsed as a task exactly when the
  pattern matches inside \<open>T\<close> just after a line terminator (CR, LS, PS), so it gives no
  task when \<open>T\<close> holds none. The tasks of a document are exactly its lines on which the
  pattern matches, in order: other lines are ignored.
\<close>

theorem marker_mapping:
  assumes "isBullet b"
  shows "map status (parse_loop i [b # js '' [ ] '' @ T]) = [PENDING] \<and>
         map status (parse_loop i [b # js '' [x] '' @ T]) = [COMPLETE] \<and>
         map status (parse_loop i [b # js '' [X] '' @ T]) = [COMPLETE] \<and>
         map status (parse_loop i [b # js '' [~] '' @ T]) = [IN_PROGRESS] \<and>
         map status (parse_loop i [b # js '' [!] '' @ T]) = [BLOCKED] \<and>
         (\<forall>m\<in>set (js '' xX~!'').
            map description (parse_loop i [b # js '' ['' @ m # js ''] '' @ T]) =
              [trim (takeWhile (\<lambda>c. \<not> isLineTerminator c) (dropWhile isSpace T))] \<and>
            map rawLine (parse_loop i [b # js '' ['' @ m # js ''] '' @ T]) =
              [b # js '' ['' @ m # js ''] '' @ T] \<and>
            map lineNumber (parse_loop i [b # js '' ['' @ m # js ''] '' @ T]) = [i + 1]) \<and>
         (0x0A \<notin> set T \<longrightarrow>
            map status (parseTasksFromContent (b # js '' [ ] '' @ T)) = [PENDING] \<and>
            map status (parseTasksFromContent (b # js '' [x] '' @ T)) = [COMPLETE] \<and>
            map status (parseTasksFromContent (b # js '' [X] '' @ T)) = [COMPLETE] \<and>
            map status (parseTasksFromContent (b # js '' [~] '' @ T)) = [IN_PROGRESS] \<and>
            map status (parseTasksFromContent (b # js '' [!] '' @ T)) = [BLOCKED] \<and>
            (\<forall>m. m \<noteq> 0x0A \<longrightarrow>
               parseTasksFromContent (b # js '' ['' @ m # js ''] '' @ T) =
                 parse_loop 0 [b # js '' ['' @ m # js ''] '' @ T])) \<and>
         ((\<forall>c\<in>set T. \<not> isLineTerminator c) \<longrightarrow>
            (\<forall>m\<in>set (js '' xX~!'').
               map description (parseTasksFromContent (b # js '' ['' @ m # js ''] '' @ T)) =
                 [trim T] \<and>
               map rawLine (parseTasksFromContent (b # js '' ['' @ m # js ''] '' @ T)) =
                 [b # js '' ['' @ m # js ''] '' @ T]) \<and>
            (\<forall>m. m \<notin> set (js '' xX~!'') \<longrightarrow>
               parse_loop i [b # js '' ['' @ m # js ''] '' @ T] = [] \<and>
               parseTasksFromContent (b # js '' ['' @ m # js ''] '' @ T) = [])) \<and>
         (\<forall>m. m \<notin> set (js '' xX~!'') \<longrightarrow>
            task_pattern_exec (b # js '' ['' @ m # js ''] '' @ T) = exec_from False T) \<and>
         (\<forall>xs ys j. parse_loop j (xs @ ys) = parse_loop j xs @ parse_loop (j + length xs) ys) \<and>
         (\<forall>content. map rawLine (parseTasksFromContent content) =
            filter (\<lambda>l. task_pattern_exec l \<noteq> None) (split_newline content))"
proof -
  have b0: "b \<noteq> 0x0A" using bullet_plain[OF assms] by simp
  have sp: "isSpace 0x20" by (simp add: isSpace_def isWhiteSpace_def)
  have R: "\<exists>c\<in>set (0x20 # T). \<not> isLineTerminator c" by (simp add: isLineTerminator_def)
  let ?d = "trim (takeWhile (\<lambda>c. \<not> isLineTerminator c) (dropWhile isSpace T))"
  have pos: "parse_loop j [b # 0x20 # 0x5B # m # 0x5D # 0x20 # T] =
           [\<lparr> task_id = js ''task-'' @ decimal (j + 1), description = ?d,
              status = marker_status (toLowerCase [m]), lineNumber = j + 1,
              rawLine = b # 0x20 # 0x5B # m # 0x5D # 0x20 # T \<rparr>]" if "isMarker m" for m j
    using parse_loop_bracket_line(1)[OF assms that R, of j] sp by simp
  have mk: "isMarker 0x20" "isMarker 0x78" "isMarker 0x58" "isMarker 0x7E" "isMarker 0x21"
    by (simp_all add: isMarker_def)
  have set_mk: "(m \<in> set (js '' xX~!'')) = isMarker m" for m
    by (auto simp: js_def isMarker_def)
  have lit: "js '' ['' = [0x20, 0x5B]" "js ''] '' = [0x5D, 0x20]"
    "js '' [ ] '' = [0x20, 0x5B, 0x20, 0x5D, 0x20]"
    "js '' [x] '' = [0x20, 0x5B, 0x78, 0x5D, 0x20]"
    "js '' [X] '' = [0x20, 0x5B, 0x58, 0x5D, 0x20]"
    "js '' [~] '' = [0x20, 0x5B, 0x7E, 0x5D, 0x20]"
    "js '' [!] '' = [0x20, 0x5B, 0x21, 0x5D, 0x20]"
    by (simp_all add: js_def)
  have single: "parseTasksFromContent (b # 0x20 # 0x5B # m # 0x5D # 0x20 # T) =
      parse_loop 0 [b # 0x20 # 0x5B # m # 0x5D # 0x20 # T]" if "0x0A \<notin> set T" "m \<noteq> 0x0A" for m
    using that b0 by (intro single_line_document) simp
  have st: "map status (parse_loop j [b # 0x20 # 0x5B # m # 0x5D # 0x20 # T]) =
      [marker_status (toLowerCase [m])]" if "isMarker m" for m j
    using pos[OF that] by simp
  have c1: "map status (parse_loop i [b # js '' [ ] '' @ T]) = [PENDING]"
    unfolding lit using st[OF mk(1)] marker_statuses by simp
  have c2: "map status (parse_loop i [b # js '' [x] '' @ T]) = [COMPLETE]"
    unfolding lit using st[OF mk(2)] marker_statuses by simp
  have c3: "map status (parse_loop i [b # js '' [X] '' @ T]) = [COMPLETE]"
    unfolding lit using st[OF mk(3)] marker_statuses by simp
  have c4: "map status (parse_loop i [b # js '' [~] '' @ T]) = [IN_PROGRESS]"
    unfolding lit using st[OF mk(4)] marker_statuses by simp
  have c5: "map status (parse_loop i [b # js '' [!] '' @ T]) = [BLOCKED]"
    unfolding lit using st[OF mk(5)] marker_statuses by simp
  have c6: "\<forall>m\<in>set (js '' xX~!'').
            map description (parse_loop i [b # js '' ['' @ m # js ''] '' @ T]) = [?d] \<and>
            map rawLine (parse_loop i [b # js '' ['' @ m # js ''] '' @ T]) =
              [b # js '' ['' @ m # js ''] '' @ T] \<and>
            map lineNumber (parse_loop i [b # js '' ['' @ m # js ''] '' @ T]) = [i + 1]"
  proof
    fix m assume "m \<in> set (js '' xX~!'')"
    then have "isMarker m" by (simp add: set_mk)
    from pos[OF this, of i] show
      "map description (parse_loop i [b # js '' ['' @ m # js ''] '' @ T]) = [?d] \<and>
       map rawLine (parse_loop i [b # js '' ['' @ m # js ''] '' @ T]) =
         [b # js '' ['' @ m # js ''] '' @ T] \<and>
       map lineNumber (parse_loop i [b # js '' ['' @ m # js ''] '' @ T]) = [i + 1]"
      unfolding lit by simp
  qed
  have c7: "map status (parseTasksFromContent (b # js '' [ ] '' @ T)) = [PENDING] \<and>
            map status (parseTasksFromContent (b # js '' [x] '' @ T)) = [COMPLETE] \<and>
            map status (parseTasksFromContent (b # js '' [X] '' @ T)) = [COMPLETE] \<and>
            map status (parseTasksFromContent (b # js '' [~] '' @ T)) = [IN_PROGRESS] \<and>
            map status (parseTasksFromContent (b # js '' [!] '' @ T)) = [BLOCKED] \<and>
            (\<forall>m. m \<noteq> 0x0A \<longrightarrow>
               parseTasksFromContent (b # js '' ['' @ m # js ''] '' @ T) =
                 parse_loop 0 [b # js '' ['' @ m # js ''] '' @ T])" if nl: "0x0A \<notin> set T"
  proof -
    have s: "map status (parseTasksFromContent (b # 0x20 # 0x5B # m # 0x5D # 0x20 # T)) =
        [marker_status (toLowerCase [m])]" if "isMarker m" for m
      using single[OF nl, of m] marker_plain[OF that] st[OF that, of 0] by simp
    have "\<forall>m. m \<noteq> 0x0A \<longrightarrow>
               parseTasksFromContent (b # js '' ['' @ m # js ''] '' @ T) =
                 parse_loop 0 [b # js '' ['' @ m # js ''] '' @ T]"
      unfolding lit using single[OF nl] by simp
    then show ?thesis
      unfolding lit(3-7) using s[OF mk(1)] s[OF mk(2)] s[OF mk(3)] s[OF mk(4)] s[OF mk(5)]
        marker_statuses by simp
  qed
  have c8: "(\<forall>m\<in>set (js '' xX~!'').
               map description (parseTasksFromContent (b # js '' ['' @ m # js ''] '' @ T)) =
                 [trim T] \<and>
               map rawLine (parseTasksFromContent (b # js '' ['' @ m # js ''] '' @ T)) =
                 [b # js '' ['' @ m # js ''] '' @ T]) \<and>
            (\<forall>m. m \<notin> set (js '' xX~!'') \<longrightarrow>
               parse_loop i [b # js '' ['' @ m # js ''] '' @ T] = [] \<and>
               parseTasksFromContent (b # js '' ['' @ m # js ''] '' @ T) = [])"
    if plain: "\<forall>c\<in>set T. \<not> isLineTerminator c"
  proof (intro conjI ballI allI impI)
    have nl: "0x0A \<notin> set T" using plain line_feed_terminator by blast
    fix m assume "m \<in> set (js '' xX~!'')"
    then have m: "isMarker m" by (simp add: set_mk)
    have e: "parseTasksFromContent (b # 0x20 # 0x5B # m # 0x5D # 0x20 # T) =
             parse_loop 0 [b # 0x20 # 0x5B # m # 0x5D # 0x20 # T]"
      using single[OF nl, of m] marker_plain[OF m] by simp
    show "map description (parseTasksFromContent (b # js '' ['' @ m # js ''] '' @ T)) = [trim T]"
      unfolding lit using e pos[OF m, of 0] trim_plain_text[OF plain] by simp
    show "map rawLine (parseTasksFromContent (b # js '' ['' @ m # js ''] '' @ T)) =
                 [b # js '' ['' @ m # js ''] '' @ T]"
      unfolding lit using e pos[OF m, of 0] by simp
  next
    fix m assume "m \<notin> set (js '' xX~!'')"
    then have m: "\<not> isMarker m" by (simp add: set_mk)
    have "task_pattern_exec (b # 0x20 # 0x5B # m # 0x5D # 0x20 # T) = None"
      using non_marker_exec[OF assms m, of T] exec_from_plain[OF plain] by simp
    then show "parse_loop i [b # js '' ['' @ m # js ''] '' @ T] = []"
      unfolding lit by simp
    show "parseTasksFromContent (b # js '' ['' @ m # js ''] '' @ T) = []"
      unfolding lit using parse_non_marker_line[OF assms m plain] by simp
  qed
  have c9: "\<forall>m. m \<notin> set (js '' xX~!'') \<longrightarrow>
            task_pattern_exec (b # js '' ['' @ m # js ''] '' @ T) = exec_from False T"
    unfolding lit set_mk using non_marker_exec[OF assms, of _ T] by simp
  have c10: "\<forall>xs ys j. parse_loop j (xs @ ys) = parse_loop j xs @ parse_loop (j + length xs) ys"
    using parse_loop_append by blast
  have c11: "\<forall>content. map rawLine (parseTasksFromContent content) =
            filter (\<lambda>l. task_pattern_exec l \<noteq> None) (split_newline content)"
    by (simp add: parseTasksFromContent_def parse_loop_rawLines)
  show ?thesis
    using c1 c2 c3 c4 c5 c6 c7 c8 c9 c10 c11 by blast
qed

theorem marker_mapping_witness:
  "isBullet 0x2D \<and>
   map status (parseTasksFromContent (js ''- [X] T'' @ [0x0D])) = [COMPLETE] \<and>
   map description (parseTasksFromContent (js ''- [X] T'' @ [0x0D])) = [js ''T''] \<and>
   map status (parse_loop 4 [js ''- [~] T'']) = [IN_PROGRESS] \<and>
   map lineNumber (parse_loop 4 [js ''- [~] T'']) = [5] \<and>
   parseTasksFromContent (js ''- [?] T'') = []"
proof -
  have b: "isBullet 0x2D" by (simp add: isBullet_def)
  have q: "0x3F \<notin> set (js '' xX~!'')" by (simp add: js_def)
  have X: "0x58 \<in> set (js '' xX~!'')" "0x7E \<in> set (js '' xX~!'')" by (simp_all add: js_def)
  have nl: "0x0A \<notin> set (js ''T'' @ [0x0D])" by (simp add: js_def)
  have plain: "\<forall>c\<in>set (js ''T''). \<not> isLineTerminator c"
    by (simp add: js_def isLineTerminator_def)
  note cr = marker_mapping[OF b, of 0 "js ''T'' @ [0x0D]"]
  note cr5 = cr[THEN conjunct2, THEN conjunct2, THEN conjunct2, THEN conjunct2, THEN conjunct2]
  note cr_desc = cr5[THEN conjunct1, rule_format, OF X(1)]
  note cr_doc = cr5[THEN conjunct2, THEN conjunct1, rule_format, OF nl]
  note pl = marker_mapping[OF b, of 4 "js ''T''"]
  note pl3 = pl[THEN conjunct2, THEN conjunct2, THEN conjunct2]
  note pl5 = pl3[THEN conjunct2, THEN conjunct2]
  note pl_line = pl5[THEN conjunct1, rule_format, OF X(2)]
  note pl_neg = pl5[THEN conjunct2, THEN conjunct2, THEN conjunct1, THEN mp, OF plain]
  have 1: "map status (parseTasksFromContent (0x2D # js '' [X] '' @ js ''T'' @ [0x0D])) = [COMPLETE]"
    using cr_doc by (elim conjE)
  have e: "parseTasksFromContent (0x2D # js '' ['' @ 0x58 # js ''] '' @ js ''T'' @ [0x0D]) =
        parse_loop 0 [0x2D # js '' ['' @ 0x58 # js ''] '' @ js ''T'' @ [0x0D]]"
  proof -
    have "\<forall>m. m \<noteq> 0x0A \<longrightarrow>
       parseTasksFromContent (0x2D # js '' ['' @ m # js ''] '' @ js ''T'' @ [0x0D]) =
         parse_loop 0 [0x2D # js '' ['' @ m # js ''] '' @ js ''T'' @ [0x0D]]"
      using cr_doc by (elim conjE)
    then show ?thesis by simp
  qed
  have "map description (parse_loop 0 [0x2D # js '' ['' @ 0x58 # js ''] '' @ js ''T'' @ [0x0D]]) =
        [trim (takeWhile (\<lambda>c. \<not> isLineTerminator c) (dropWhile isSpace (js ''T'' @ [0x0D])))]"
    using cr_desc by (elim conjE)
  moreover have "trim (takeWhile (\<lambda>c. \<not> isLineTerminator c)
        (dropWhile isSpace (js ''T'' @ [0x0D]))) = js ''T''"
    by (simp add: js_def trim_def isSpace_def isWhiteSpace_def isLineTerminator_def)
  ultimately have 2: "map description (parseTasksFromContent
        (0x2D # js '' ['' @ 0x58 # js ''] '' @ js ''T'' @ [0x0D])) = [js ''T'']"
    unfolding e by simp
  have 3: "map status (parse_loop 4 [0x2D # js '' [~] '' @ js ''T'']) = [IN_PROGRESS]"
    using pl3 by (elim conjE)
  have "map lineNumber (parse_loop 4 [0x2D # js '' ['' @ 0x7E # js ''] '' @ js ''T'']) = [4 + 1]"
    using pl_line by (elim conjE)
  then have 4: "map lineNumber (parse_loop 4 [0x2D # js '' ['' @ 0x7E # js ''] '' @ js ''T'']) = [5]"
    by simp
  have "parse_loop 4 [0x2D # js '' ['' @ 0x3F # js ''] '' @ js ''T''] = [] \<and>
        parseTasksFromContent (0x2D # js '' ['' @ 0x3F # js ''] '' @ js ''T'') = []"
    using pl_neg[THEN conjunct2, rule_format, OF q] .
  then have 5: "parseTasksFromContent (0x2D # js '' ['' @ 0x3F # js ''] '' @ js ''T'') = []"
    by simp
  have l: "js ''- [X] T'' @ [0x0D] = 0x2D # js '' [X] '' @ js ''T'' @ [0x0D]"
    "js ''- [X] T'' @ [0x0D] = 0x2D # js '' ['' @ 0x58 # js ''] '' @ js ''T'' @ [0x0D]"
    "js ''- [~] T'' = 0x2D # js '' [~] '' @ js ''T''"
    "js ''- [~] T'' = 0x2D # js '' ['' @ 0x7E # js ''] '' @ js ''T''"
    "js ''- [?] T'' = 0x2D # js '' ['' @ 0x3F # js ''] '' @ js ''T''"
    by (simp_all add: js_def)
  show ?thesis
    using b 1 2[folded l(2)] 3 4[folded l(4)] 5[folded l(5)] unfolding l(1) l(3) by simp
qed

text \<open>
  A line whose bracket holds another character can still be a task line, where \<open>T\<close>
  holds a line terminator: \<open>- [?] no\<close>, CR, \<open>- [!] yes\<close> is one line of the document,
  its first bracket holds \<open>?\<close>, and it is parsed as the Blocked task \<open>yes\<close>.
\<close>

theorem marker_mapping_counterexample:
  "map status (parseTasksFromContent (js ''- [?] no'' @ [0x0D] @ js ''- [!] yes'')) = [BLOCKED] \<and>
   map description (parseTasksFromContent (js ''- [?] no'' @ [0x0D] @ js ''- [!] yes'')) =
     [js ''yes''] \<and>
   map rawLine (parseTasksFromContent (js ''- [?] no'' @ [0x0D] @ js ''- [!] yes'')) =
     [js ''- [?] no'' @ [0x0D] @ js ''- [!] yes''] \<and>
   split_newline (js ''- [?] no'' @ [0x0D] @ js ''- [!] yes'') =
     [js ''- [?] no'' @ [0x0D] @ js ''- [!] yes'']"
  by (simp add: parseTasksFromContent_def js_def task_pattern_exec_def match_here_def
      isBullet_def isSpace_def isWhiteSpace_def isLineTerminator_def isMarker_def
      match_text_def trim_def toLowerCase_def marker_status_def decimal.simps)

text \<open>
  Claim C5. For every ledger document the statistics count: \<open>pending\<close> is the number of
  Pending tasks plus the number of InProgress tasks, \<open>total\<close> the number of parsed tasks,
  \<open>completed\<close> the number of Complete tasks; an empty or absent document gives
  \<open>{total: 0, completed: 0, pending: 0}\<close>.
\<close>

theorem task_stats_counts:
  "pending (getTaskStatsAsync w) =
     length (filter (\<lambda>t. status t = PENDING) (parseTasksAsync w)) +
     length (filter (\<lambda>t. status t = IN_PROGRESS) (parseTasksAsync w)) \<and>
   total (getTaskStatsAsync w) = length (parseTasksAsync w) \<and>
   completed (getTaskStatsAsync w) =
     length (filter (\<lambda>t. status t = COMPLETE) (parseTasksAsync w)) \<and>
   getTaskStatsAsync \<lparr>hasRoot = True, prdFile = FileContent []\<rparr> =
     \<lparr>total = 0, completed = 0, pending = 0\<rparr> \<and>
   getTaskStatsAsync \<lparr>hasRoot = True, prdFile = NoSuchFile\<rparr> =
     \<lparr>total = 0, completed = 0, pending = 0\<rparr> \<and>
   getTaskStatsAsync \<lparr>hasRoot = True, prdFile = ReadError\<rparr> =
     \<lparr>total = 0, completed = 0, pending = 0\<rparr> \<and>
   getTaskStatsAsync \<lparr>hasRoot = False, prdFile = f\<rparr> =
     \<lparr>total = 0, completed = 0, pending = 0\<rparr>"
proof -
  have "length (filter isOpen ts) =
        length (filter (\<lambda>t. status t = PENDING) ts) +
        length (filter (\<lambda>t. status t = IN_PROGRESS) ts)" for ts :: "Task list"
    by (induction ts) (auto simp: isOpen_def)
  then show ?thesis
    by (simp add: getTaskStatsAsync_def Let_def parseTasksAsync_def readPRDAsync_def)
qed

theorem task_stats_counts_witness:
  "getTaskStatsAsync \<lparr>hasRoot = True, prdFile = FileContent
      (js ''- [x] a'' @ [0x0A] @ js ''- [ ] b'' @ [0x0A] @ js ''- [~] c'' @ [0x0A] @ js ''- [!] d'')\<rparr> =
     \<lparr>total = 4, completed = 1, pending = 2\<rparr>"
proof -
  let ?w = "\<lparr>hasRoot = True, prdFile = FileContent
      (js ''- [x] a'' @ [0x0A] @ js ''- [ ] b'' @ [0x0A] @ js ''- [~] c'' @ [0x0A] @ js ''- [!] d'')\<rparr>"
  have p: "map status (parseTasksAsync ?w) = [COMPLETE, PENDING, IN_PROGRESS, BLOCKED]"
    by (simp add: parseTasksAsync_def readPRDAsync_def parseTasksFromContent_def js_def
        task_pattern_exec_def match_here_def isBullet_def isSpace_def isWhiteSpace_def
        isLineTerminator_def isMarker_def match_text_def trim_def toLowerCase_def
        marker_status_def decimal.simps)
  have len: "length (filter (\<lambda>t. status t = s) ts) = length (filter (\<lambda>x. x = s) (map status ts))"
    for s and ts :: "Task list"
    by (induction ts) auto
  have "length (parseTasksAsync ?w) = length (map status (parseTasksAsync ?w))" by simp
  then have n: "length (parseTasksAsync ?w) = 4" unfolding p by simp
  have "total (getTaskStatsAsync ?w) = 4 \<and> completed (getTaskStatsAsync ?w) = 1 \<and>
        pending (getTaskStatsAsync ?w) = 2"
    using task_stats_counts[of ?w] unfolding len p n by simp
  then show ?thesis by (cases "getTaskStatsAsync ?w") simp
qed

text \<open>
  Claim C10, as amended. Every task produced by parsing has a description equal to its own
  trim. A line made of a bullet, a valid marker and then only white space (in the sense of
  \<open>\s\<close> and \<open>trim\<close>) is parsed as a task, with the empty string as description,
  exactly when that white space holds a character that is not a line terminator: so
  \<open>- [x]\<close> followed by two spaces, or by a space and CR, is; \<open>- [x]\<close> followed by CR
  alone, the \<open>- [x]\<close> line of a CRLF document, is not.
\<close>

theorem descriptions_trimmed:
  "(\<forall>t\<in>set (parseTasksFromContent content). trim (description t) = description t) \<and>
   (\<forall>t\<in>set (parseTasksAsync w). trim (description t) = description t) \<and>
   (isBullet b \<and> isMarker m \<and> W \<noteq> [] \<and> (\<forall>c\<in>set W. isWhiteSpace c) \<longrightarrow>
      map description (parseTasksFromContent (b # js '' ['' @ m # js '']'' @ W)) = [[]] \<and>
      map rawLine (parseTasksFromContent (b # js '' ['' @ m # js '']'' @ W)) =
        [b # js '' ['' @ m # js '']'' @ W]) \<and>
   (isBullet b \<and> isMarker m \<and> (\<forall>c\<in>set W. isSpace c) \<longrightarrow>
      ((\<exists>c\<in>set W. \<not> isLineTerminator c) \<longrightarrow>
         map description (parse_loop i [b # js '' ['' @ m # js '']'' @ W]) = [[]] \<and>
         map rawLine (parse_loop i [b # js '' ['' @ m # js '']'' @ W]) =
           [b # js '' ['' @ m # js '']'' @ W] \<and>
         map lineNumber (parse_loop i [b # js '' ['' @ m # js '']'' @ W]) = [i + 1]) \<and>
      ((\<forall>c\<in>set W. isLineTerminator c) \<longrightarrow>
         parse_loop i [b # js '' ['' @ m # js '']'' @ W] = []) \<and>
      (0x0A \<notin> set W \<longrightarrow>
         parseTasksFromContent (b # js '' ['' @ m # js '']'' @ W) =
           parse_loop 0 [b # js '' ['' @ m # js '']'' @ W]))"
proof (intro conjI impI ballI)
  fix t assume "t \<in> set (parseTasksFromContent content)"
  then show "trim (description t) = description t"
    by (simp add: parseTasksFromContent_def parse_loop_trimmed)
next
  fix t assume "t \<in> set (parseTasksAsync w)"
  then show "trim (description t) = description t"
    by (auto simp: parseTasksAsync_def parseTasksFromContent_def parse_loop_trimmed
        split: option.splits if_splits)
next
  assume a: "isBullet b \<and> isMarker m \<and> W \<noteq> [] \<and> (\<forall>c\<in>set W. isWhiteSpace c)"
  then have plain: "\<forall>c\<in>set W. \<not> isLineTerminator c"
    using whitespace_not_terminator by blast
  have "\<forall>c\<in>set W. isSpace c" using a by (simp add: isSpace_def)
  then have "trim W = []" by (rule trim_all_space)
  moreover have "js '' ['' = [0x20, 0x5B]" "js '']'' = [0x5D]" by (simp_all add: js_def)
  ultimately show
    "map description (parseTasksFromContent (b # js '' ['' @ m # js '']'' @ W)) = [[]]"
    "map rawLine (parseTasksFromContent (b # js '' ['' @ m # js '']'' @ W)) =
        [b # js '' ['' @ m # js '']'' @ W]"
    using parse_bullet_line[of b m W] a plain by simp_all
next
  assume a: "isBullet b \<and> isMarker m \<and> (\<forall>c\<in>set W. isSpace c)"
  have lit: "js '' ['' = [0x20, 0x5B]" "js '']'' = [0x5D]" by (simp_all add: js_def)
  have dw: "dropWhile isSpace W = []" using a by simp
  have d: "trim (takeWhile (\<lambda>x. \<not> isLineTerminator x) (dropWhile isSpace W)) = []"
    unfolding trim_def dw by simp
  {
    assume "\<exists>c\<in>set W. \<not> isLineTerminator c"
    from parse_loop_bracket_line(1)[OF _ _ this, of b m i] a d
    show "map description (parse_loop i [b # js '' ['' @ m # js '']'' @ W]) = [[]]"
      "map rawLine (parse_loop i [b # js '' ['' @ m # js '']'' @ W]) =
           [b # js '' ['' @ m # js '']'' @ W]"
      "map lineNumber (parse_loop i [b # js '' ['' @ m # js '']'' @ W]) = [i + 1]"
      unfolding lit by simp_all
  }
  {
    assume "\<forall>c\<in>set W. isLineTerminator c"
    from parse_loop_bracket_line(2)[OF _ _ this, of b m i] a
    show "parse_loop i [b # js '' ['' @ m # js '']'' @ W] = []"
      unfolding lit by simp
  }
  {
    assume "0x0A \<notin> set W"
    then have "0x0A \<notin> set (b # 0x20 # 0x5B # m # 0x5D # W)"
      using a bullet_plain[of b] marker_plain[of m] by simp
    from single_line_document[OF this]
    show "parseTasksFromContent (b # js '' ['' @ m # js '']'' @ W) =
           parse_loop 0 [b # js '' ['' @ m # js '']'' @ W]"
      unfolding lit by simp
  }
qed

theorem descriptions_trimmed_witness:
  "isBullet 0x2D \<and> isMarker 0x78 \<and> js ''  '' \<noteq> [] \<and>
   map description (parseTasksFromContent (js ''- [x]  '')) = [[]] \<and>
   map description (parseTasksFromContent (js ''- [x] '' @ [0x0D])) = [[]] \<and>
   map description (parseTasksFromContent (js ''- [ ]   pad me  '')) = [js ''pad me''] \<and>
   trim (js ''pad me'') = js ''pad me''"
proof -
  have h: "isBullet 0x2D \<and> isMarker 0x78 \<and> js ''  '' \<noteq> [] \<and> (\<forall>c\<in>set (js ''  ''). isWhiteSpace c)"
    by (simp add: isBullet_def isMarker_def js_def isWhiteSpace_def)
  have h2: "isBullet 0x2D \<and> isMarker 0x78 \<and> (\<forall>c\<in>set (js '' '' @ [0x0D]). isSpace c)"
    by (simp add: isBullet_def isMarker_def js_def isSpace_def isWhiteSpace_def
        isLineTerminator_def)
  have h3: "\<exists>c\<in>set (js '' '' @ [0x0D]). \<not> isLineTerminator c" "0x0A \<notin> set (js '' '' @ [0x0D])"
    by (simp_all add: js_def isLineTerminator_def)
  have p: "parseTasksFromContent (js ''- [ ]   pad me  '') =
      [\<lparr> task_id = js ''task-1'', description = js ''pad me'', status = PENDING, lineNumber = 1,
         rawLine = js ''- [ ]   pad me  '' \<rparr>]"
    by (simp add: parseTasksFromContent_def js_def task_pattern_exec_def match_here_def
        isBullet_def isSpace_def isWhiteSpace_def isLineTerminator_def isMarker_def
        match_text_def trim_def toLowerCase_def marker_status_def decimal.simps)
  note inst = descriptions_trimmed[of "js ''- [ ]   pad me  ''"
      "\<lparr>hasRoot = False, prdFile = NoSuchFile\<rparr>" "0x2D" "0x78" "js ''  ''" 0]
  note inst2 = descriptions_trimmed[of "[]"
      "\<lparr>hasRoot = False, prdFile = NoSuchFile\<rparr>" "0x2D" "0x78" "js '' '' @ [0x0D]" 0]
  have "\<forall>t\<in>set (parseTasksFromContent (js ''- [ ]   pad me  '')). trim (description t) = description t"
    using inst[THEN conjunct1] .
  then have 1: "trim (js ''pad me'') = js ''pad me''"
    unfolding p by simp
  have 2: "map description (parseTasksFromContent (0x2D # js '' ['' @ 0x78 # js '']'' @ js ''  '')) = [[]]"
    using inst[THEN conjunct2, THEN conjunct2, THEN conjunct1, rule_format, OF h] by (elim conjE)
  note cr = inst2[THEN conjunct2, THEN conjunct2, THEN conjunct2, rule_format, OF h2]
  have a: "map description (parse_loop 0 [0x2D # js '' ['' @ 0x78 # js '']'' @ js '' '' @ [0x0D]]) = [[]]"
    using cr[THEN conjunct1, rule_format, OF h3(1)] by (elim conjE)
  have e: "parseTasksFromContent (0x2D # js '' ['' @ 0x78 # js '']'' @ js '' '' @ [0x0D]) =
       parse_loop 0 [0x2D # js '' ['' @ 0x78 # js '']'' @ js '' '' @ [0x0D]]"
    using cr[THEN conjunct2, THEN conjunct2, rule_format, OF h3(2)] .
  have 3: "map description (parseTasksFromContent
       (0x2D # js '' ['' @ 0x78 # js '']'' @ js '' '' @ [0x0D])) = [[]]"
    unfolding e using a .
  have l: "js ''- [x]  '' = 0x2D # js '' ['' @ 0x78 # js '']'' @ js ''  ''"
    "js ''- [x] '' @ [0x0D] = 0x2D # js '' ['' @ 0x78 # js '']'' @ js '' '' @ [0x0D]"
    by (simp_all add: js_def)
  have hh: "isBullet 0x2D \<and> isMarker 0x78 \<and> js ''  '' \<noteq> []" using h by simp
  show ?thesis
    using hh 1 2[folded l(1)] 3[folded l(2)] p by simp
qed

text \<open>
  A bullet and a valid marker followed by white space only need not be a task: when that
  white space is a line terminator, as in \<open>- [x]\<close> followed by CR, the line gives no
  task, alone or as the first line of a CRLF document.
\<close>

theorem descriptions_trimmed_counterexample:
  "isBullet 0x2D \<and> isMarker 0x78 \<and> isSpace 0x0D \<and>
   parseTasksFromContent (js ''- [x]'' @ [0x0D]) = [] \<and>
   split_newline (js ''- [x]'' @ [0x0D]) = [js ''- [x]'' @ [0x0D]] \<and>
   parseTasksFromContent (js ''- [x]'' @ [0x0D, 0x0A] @ js ''- [ ] next'' @ [0x0D, 0x0A]) =
     [\<lparr> task_id = js ''task-2'', description = js ''next'', status = PENDING, lineNumber = 2,
        rawLine = js ''- [ ] next'' @ [0x0D] \<rparr>]"
  by (simp add: parseTasksFromContent_def js_def task_pattern_exec_def match_here_def
      isBullet_def isSpace_def isWhiteSpace_def isLineTerminator_def isMarker_def
      match_text_def trim_def toLowerCase_def marker_status_def decimal.simps)

section \<open>Properties of the task runner\<close>

lemma increments_count:
  "iterationCount (((\<lambda>r. snd (incrementIteration r)) ^^ n) r) = iterationCount r + int n"
  by (induction n) (simp_all add: incrementIteration_def)

lemma increments_settings:
  "settings (((\<lambda>r. snd (incrementIteration r)) ^^ n) r) = settings r"
  by (induction n) (simp_all add: incrementIteration_def)

text \<open>
  Claim C6. \<open>checkIterationLimit\<close> answers false whenever \<open>maxIterations\<close> is zero or
  negative. When \<open>maxIterations\<close> is positive it answers true exactly when the counter
  has reached it; counting up by one from a reset it is therefore false after fewer than
  \<open>maxIterations\<close> increments and true from the increment at which the counter equals
  \<open>maxIterations\<close>. The call leaves the runner as it was: counter, settings and all
  other fields; what it does besides answering is to log one line when the answer is true.
\<close>

theorem iteration_limit:
  "(maxIterations (settings r) \<le> 0 \<longrightarrow> \<not> fst (checkIterationLimit r)) \<and>
   (0 < maxIterations (settings r) \<longrightarrow>
      fst (checkIterationLimit r) = (maxIterations (settings r) \<le> iterationCount r)) \<and>
   (0 < maxIterations (settings r) \<longrightarrow>
      (\<forall>n. fst (checkIterationLimit
                 (((\<lambda>r. snd (incrementIteration r)) ^^ n) (resetIterations r))) =
            (maxIterations (settings r) \<le> int n))) \<and>
   snd (snd (checkIterationLimit r)) = r \<and>
   fst (snd (checkIterationLimit r)) =
     (if fst (checkIterationLimit r)
      then [(LogReachedMaximum (maxIterations (settings r)), True)] else [])"
proof (intro conjI impI allI)
  show "maxIterations (settings r) \<le> 0 \<Longrightarrow> \<not> fst (checkIterationLimit r)"
    by (simp add: checkIterationLimit_def)
  show "0 < maxIterations (settings r) \<Longrightarrow>
      fst (checkIterationLimit r) = (maxIterations (settings r) \<le> iterationCount r)"
    by (simp add: checkIterationLimit_def)
  show "snd (snd (checkIterationLimit r)) = r"
    by (simp add: checkIterationLimit_def)
  show "fst (snd (checkIterationLimit r)) =
     (if fst (checkIterationLimit r)
      then [(LogReachedMaximum (maxIterations (settings r)), True)] else [])"
    by (simp add: checkIterationLimit_def)
next
  fix n
  assume pos: "0 < maxIterations (settings r)"
  let ?r = "((\<lambda>r. snd (incrementIteration r)) ^^ n) (resetIterations r)"
  have "iterationCount ?r = int n" "settings ?r = settings r"
    by (simp_all add: increments_count increments_settings resetIterations_def)
  then show "fst (checkIterationLimit ?r) = (maxIterations (settings r) \<le> int n)"
    using pos by (simp add: checkIterationLimit_def)
qed

theorem iteration_limit_witness:
  "\<not> fst (checkIterationLimit (snd (incrementIteration
       (new_TaskRunner \<lparr>writeTests = False, runTests = False, runTypeCheck = False,
          runLinting = False, updateDocs = False, commitChanges = False\<rparr>
          \<lparr>maxIterations = 3\<rparr>)))) \<and>
   \<not> fst (checkIterationLimit (snd (incrementIteration (snd (incrementIteration
       (new_TaskRunner \<lparr>writeTests = False, runTests = False, runTypeCheck = False,
          runLinting = False, updateDocs = False, commitChanges = False\<rparr>
          \<lparr>maxIterations = 3\<rparr>)))))) \<and>
   fst (checkIterationLimit (snd (incrementIteration (snd (incrementIteration
       (snd (incrementIteration
       (new_TaskRunner \<lparr>writeTests = False, runTests = False, runTypeCheck = False,
          runLinting = False, updateDocs = False, commitChanges = False\<rparr>
          \<lparr>maxIterations = 3\<rparr>)))))))) \<and>
   \<not> fst (checkIterationLimit (snd (incrementIteration
       (new_TaskRunner \<lparr>writeTests = False, runTests = False, runTypeCheck = False,
          runLinting = False, updateDocs = False, commitChanges = False\<rparr>
          \<lparr>maxIterations = 0\<rparr>))))"
proof -
  let ?q = "\<lparr>writeTests = False, runTests = False, runTypeCheck = False,
          runLinting = False, updateDocs = False, commitChanges = False\<rparr>"
  let ?r = "new_TaskRunner ?q \<lparr>maxIterations = 3\<rparr>"
  let ?z = "new_TaskRunner ?q \<lparr>maxIterations = 0\<rparr>"
  have s: "settings (snd (incrementIteration x)) = settings x"
    "iterationCount (snd (incrementIteration x)) = iterationCount x + 1" for x
    by (simp_all add: incrementIteration_def)
  have i: "settings ?r = \<lparr>maxIterations = 3\<rparr>" "iterationCount ?r = 0"
    "settings ?z = \<lparr>maxIterations = 0\<rparr>"
    by (simp_all add: new_TaskRunner_def)
  have pos: "fst (checkIterationLimit x) = (maxIterations (settings x) \<le> iterationCount x)"
    if "0 < maxIterations (settings x)" for x
    using iteration_limit[of x] that by blast
  have off: "\<not> fst (checkIterationLimit x)" if "maxIterations (settings x) \<le> 0" for x
    using iteration_limit[of x] that by blast
  show ?thesis
    by (simp add: pos off s i)
qed

text \<open>
  Claim C8, as amended. \<open>recordTaskCompletion\<close> appends to the history the record it
  returns, whose duration is the current time minus the start timestamp; the start
  timestamp is written by \<open>setCurrentTask\<close> and by no other method, so it is the one of
  the most recent \<open>setCurrentTask\<close>. Without any preceding \<open>setCurrentTask\<close> the start
  timestamp is still its initial 0 and the duration is the current time itself: the
  milliseconds since the epoch, a very large positive number.
\<close>

theorem completion_duration:
  "duration (fst (recordTaskCompletion now1 now2 r)) = now1 - taskStartTime r \<and>
   taskHistory (snd (snd (recordTaskCompletion now1 now2 r))) =
     taskHistory r @ [fst (recordTaskCompletion now1 now2 r)] \<and>
   taskStartTime (setCurrentTask d start r) = start \<and>
   duration (fst (recordTaskCompletion now1 now2 (setCurrentTask d start r))) = now1 - start \<and>
   taskStartTime (snd (incrementIteration r)) = taskStartTime r \<and>
   taskStartTime (resetIterations r) = taskStartTime r \<and>
   taskStartTime (clearHistory r) = taskStartTime r \<and>
   taskStartTime (snd (snd (checkIterationLimit r))) = taskStartTime r \<and>
   taskStartTime (snd (snd (recordTaskCompletion now1 now2 r))) = taskStartTime r \<and>
   taskStartTime (snd (snd (triggerCopilotAgent a d r))) = taskStartTime r \<and>
   taskStartTime (new_TaskRunner q s) = 0 \<and>
   duration (fst (recordTaskCompletion now1 now2 (new_TaskRunner q s))) = now1"
  by (simp add: recordTaskCompletion_def Let_def setCurrentTask_def incrementIteration_def
      resetIterations_def clearHistory_def checkIterationLimit_def triggerCopilotAgent_def
      new_TaskRunner_def split: option.splits)

theorem completion_duration_witness:
  "duration (fst (recordTaskCompletion 1793664090000 1793664090001
      (setCurrentTask (js ''task1'') 1793664000000
         (new_TaskRunner \<lparr>writeTests = False, runTests = False, runTypeCheck = False,
            runLinting = False, updateDocs = False, commitChanges = False\<rparr>
            \<lparr>maxIterations = 0\<rparr>)))) = 90000"
  using completion_duration[of 1793664090000 1793664090001 _ "js ''task1''" 1793664000000]
  by simp

text \<open>
  The duration without a preceding \<open>setCurrentTask\<close> is not near zero and not negative:
  at the first millisecond of 3 November 2026 it is 1793664000000.
\<close>

theorem completion_duration_counterexample:
  "duration (fst (recordTaskCompletion 1793664000000 1793664000000
      (new_TaskRunner \<lparr>writeTests = False, runTests = False, runTypeCheck = False,
          runLinting = False, updateDocs = False, commitChanges = False\<rparr>
          \<lparr>maxIterations = 0\<rparr>))) = 1793664000000 \<and>
   \<not> duration (fst (recordTaskCompletion 1793664000000 1793664000000
      (new_TaskRunner \<lparr>writeTests = False, runTests = False, runTypeCheck = False,
          runLinting = False, updateDocs = False, commitChanges = False\<rparr>
          \<lparr>maxIterations = 0\<rparr>))) \<le> 1000"
  by (simp add: recordTaskCompletion_def Let_def new_TaskRunner_def)

section \<open>Properties of the loop orchestrator\<close>

lemmas ui_defs = addLog_def clearLogs_def updateHistory_def updateStats_def updateStatus_def
  setIteration_def setTaskInfo_def updateCountdown_def updateSessionTiming_def
  updatePanelTiming_def

lemmas collaborator_defs = prdWatcher_start_def prdWatcher_enable_def prdWatcher_disable_def
  prdWatcher_updateContent_def fileWatchers_dispose_def countdown_start_def countdown_stop_def
  monitor_start_def monitor_recordActivity_def monitor_setWaiting_def monitor_pause_def
  monitor_resume_def monitor_stop_def

lemmas runner_defs = clearHistory_def getCurrentTask_def setCurrentTask_def
  getIterationCount_def incrementIteration_def resetIterations_def recordTaskCompletion_def
  checkIterationLimit_def triggerCopilotAgent_def

lemma deliverLogs_fields:
  "state (deliverLogs ls w) = state w"
  "isPaused (deliverLogs ls w) = isPaused w"
  "taskRunner (deliverLogs ls w) = taskRunner w"
  "fileWatchers (deliverLogs ls w) = fileWatchers w"
  "countdownTimer (deliverLogs ls w) = countdownTimer w"
  "inactivityMonitor (deliverLogs ls w) = inactivityMonitor w"
  "sessionStartTime (deliverLogs ls w) = sessionStartTime w"
  "workspace (deliverLogs ls w) = workspace w"
  "clock (deliverLogs ls w) = clock w"
  "progressFile (deliverLogs ls w) = progressFile w"
  "fsWritable (deliverLogs ls w) = fsWritable w"
  "copilot (deliverLogs ls w) = copilot w"
  "dispatched (deliverLogs ls w) = dispatched w"
  "notices (deliverLogs ls w) = notices w"
  by (induction ls w rule: deliverLogs.induct; simp add: addLog_def)+


lemma handlePrdChange_completion:
  assumes "getNextTaskAsync (workspace w) = None \<or>
           (\<exists>t. getNextTaskAsync (workspace w) = Some t \<and>
                description t \<noteq> currentTaskDescription (taskRunner w))"
  shows "\<not> prdEnabled (prdWatcher (fileWatchers (handlePrdChange N c w))) \<and>
    inactivityMonitor (handlePrdChange N c w) =
           \<lparr>monitorTimer = TimerStopped, monitorWaiting = False\<rparr> \<and>
    taskHistory (taskRunner (handlePrdChange N c w)) =
            taskHistory (taskRunner w) @
              [\<lparr> taskDescription = currentTaskDescription (taskRunner w), completedAt = clock w,
                  duration = clock w - taskStartTime (taskRunner w),
                  iteration = iterationCount (taskRunner w) \<rparr>] \<and>
    progressFile (handlePrdChange N c w) =
            (if hasRoot (workspace w) \<and> fsWritable w then
               Some ((case progressFile w of None \<Rightarrow> [] | Some ls \<Rightarrow> ls) @
                     [EntryLine (clock w)
                        (CompletedEntry (currentTaskDescription (taskRunner w))
                           ((clock w - taskStartTime (taskRunner w) + 500) div 1000))])
             else progressFile w) \<and>
    countdownTimer (handlePrdChange N c w) = Some N"
proof (cases "getNextTaskAsync (workspace w)")
  case None
  then show ?thesis
    unfolding handlePrdChange_def
    by (simp add: Let_def ui_defs collaborator_defs runner_defs startCountdown_def
        appendProgressAsync_def)
next
  case (Some t)
  then have "description t \<noteq> currentTaskDescription (taskRunner w)" using assms by simp
  with Some show ?thesis
    unfolding handlePrdChange_def
    by (simp add: Let_def ui_defs collaborator_defs runner_defs startCountdown_def
        appendProgressAsync_def)
qed

lemma handlePrdChange_quiet:
  assumes "getNextTaskAsync (workspace w) = Some t"
    and "description t = currentTaskDescription (taskRunner w)"
  shows "prdEnabled (prdWatcher (fileWatchers (handlePrdChange N c w))) =
           prdEnabled (prdWatcher (fileWatchers w))"
    and "inactivityMonitor (handlePrdChange N c w) = inactivityMonitor w"
    and "taskRunner (handlePrdChange N c w) = taskRunner w"
    and "progressFile (handlePrdChange N c w) = progressFile w"
    and "countdownTimer (handlePrdChange N c w) = countdownTimer w"
  using assms unfolding handlePrdChange_def
  by (simp_all add: Let_def ui_defs collaborator_defs runner_defs)

lemma stopLoop_keeps:
  "taskRunner (stopLoop w) = taskRunner w"
  "workspace (stopLoop w) = workspace w"
  "clock (stopLoop w) = clock w"
  "progressFile (stopLoop w) = progressFile w"
  "fsWritable (stopLoop w) = fsWritable w"
  "dispatched (stopLoop w) = dispatched w"
  "notices (stopLoop w) = notices w"
  "logs (ui (stopLoop w)) = logs (ui w)"
  by (simp_all add: stopLoop_def Let_def ui_defs collaborator_defs runner_defs)

lemma stopLoop_state:
  "state (stopLoop w) = IDLE"
  "\<not> isPaused (stopLoop w)"
  "\<not> prdWatching (prdWatcher (fileWatchers (stopLoop w)))"
  "countdownTimer (stopLoop w) = None"
  "inactivityMonitor (stopLoop w) = \<lparr>monitorTimer = TimerStopped, monitorWaiting = False\<rparr>"
  by (simp_all add: stopLoop_def Let_def ui_defs collaborator_defs runner_defs)

lemma handlePrdChange_frame:
  "state (handlePrdChange N c w) = state w"
  "isPaused (handlePrdChange N c w) = isPaused w"
  "iterationCount (taskRunner (handlePrdChange N c w)) = iterationCount (taskRunner w)"
  "currentTaskDescription (taskRunner (handlePrdChange N c w)) =
     currentTaskDescription (taskRunner w)"
  "dispatched (handlePrdChange N c w) = dispatched w"
  "lastContent (prdWatcher (fileWatchers (handlePrdChange N c w))) = c"
  "take (Suc (length (logs (ui w)))) (logs (ui (handlePrdChange N c w))) =
     logs (ui w) @ [(LogPrdChanged, False)]"
  by (cases "getNextTaskAsync (workspace w)";
      simp add: handlePrdChange_def Let_def ui_defs collaborator_defs runner_defs
        startCountdown_def appendProgressAsync_def)+

lemma pending_next:
  "pending (getTaskStatsAsync ws) \<noteq> 0 \<Longrightarrow> \<exists>t. getNextTaskAsync ws = Some t"
proof -
  assume "pending (getTaskStatsAsync ws) \<noteq> 0"
  then have "filter isOpen (parseTasksAsync ws) \<noteq> []"
    by (simp add: getTaskStatsAsync_def Let_def)
  then obtain t where "t \<in> set (parseTasksAsync ws)" "isOpen t"
    by (auto simp: filter_empty_conv)
  then have "List.find isOpen (parseTasksAsync ws) \<noteq> None"
    by (auto simp: find_None_iff)
  then show ?thesis by (auto simp: getNextTaskAsync_def)
qed

lemma runNextTask_count:
  "iterationCount (taskRunner (runNextTask w)) =
     (if state w = RUNNING \<and> \<not> isPaused w \<and> pending (getTaskStatsAsync (workspace w)) \<noteq> 0 \<and>
         \<not> fst (checkIterationLimit (taskRunner w))
      then iterationCount (taskRunner w) + 1 else iterationCount (taskRunner w))"
proof (cases "state w = RUNNING \<and> \<not> isPaused w \<and> pending (getTaskStatsAsync (workspace w)) \<noteq> 0")
  case False
  then show ?thesis
    by (auto simp: runNextTask_def Let_def stopLoop_keeps ui_defs)
next
  case True
  then obtain t where t: "getNextTaskAsync (workspace w) = Some t"
    using pending_next by blast
  show ?thesis
  proof (cases "fst (checkIterationLimit (taskRunner w))")
    case lim: True
    then show ?thesis using True t
      by (simp add: runNextTask_def Let_def stopLoop_keeps deliverLogs_fields
          checkIterationLimit_def addLog_def split: if_splits)
  next
    case lim: False
    then show ?thesis using True t
      by (auto simp: runNextTask_def Let_def deliverLogs_fields ui_defs collaborator_defs
          runner_defs split: if_splits option.splits)
  qed
qed

lemma startLoop_accepted:
  assumes "state w \<noteq> RUNNING" and "pending (getTaskStatsAsync (workspace w)) \<noteq> 0"
  shows "\<exists>w1. startLoop w = runNextTask w1 \<and> state w1 = RUNNING \<and> \<not> isPaused w1 \<and>
           workspace w1 = workspace w \<and> iterationCount (taskRunner w1) = 0 \<and>
           settings (taskRunner w1) = settings (taskRunner w)"
proof -
  obtain ok w0 where e: "ensureProgressFileAsync w = (ok, w0)"
    by (cases "ensureProgressFileAsync w")
  then have w0: "workspace w0 = workspace w" "taskRunner w0 = taskRunner w"
    by (auto simp: ensureProgressFileAsync_def split: if_splits option.splits)
  show ?thesis
    using assms e w0
    by (simp add: startLoop_def Let_def setupWatchers_def ui_defs collaborator_defs runner_defs)
      (rule exI, rule conjI[OF refl], simp)
qed

lemma startLoop_rejected:
  "state w = RUNNING \<or> pending (getTaskStatsAsync (workspace w)) = 0 \<Longrightarrow>
   taskRunner (startLoop w) = taskRunner w"
  by (auto simp: startLoop_def Let_def ui_defs)

lemma pauseLoop_keeps:
  "taskRunner (pauseLoop w) = taskRunner w"
  "workspace (pauseLoop w) = workspace w"
  "state (pauseLoop w) = state w"
  "isPaused (pauseLoop w) = (state w = RUNNING \<or> isPaused w)"
  by (auto simp: pauseLoop_def Let_def ui_defs)

lemma resumeLoop_keeps:
  "taskRunner (fst (resumeLoop w)) = taskRunner w"
  "workspace (fst (resumeLoop w)) = workspace w"
  "state (fst (resumeLoop w)) = state w"
  "\<not> isPaused (fst (resumeLoop w))"
  "snd (resumeLoop w) = isPaused w"
  by (auto simp: resumeLoop_def Let_def ui_defs)

lemma resumeLoop_cycle_count:
  "iterationCount (taskRunner (resumeLoop_cycle w)) =
     (if isPaused w \<and> state w = RUNNING \<and> pending (getTaskStatsAsync (workspace w)) \<noteq> 0 \<and>
         \<not> fst (checkIterationLimit (taskRunner w))
      then iterationCount (taskRunner w) + 1 else iterationCount (taskRunner w))"
proof (cases "isPaused w")
  case False
  then show ?thesis by (simp add: resumeLoop_cycle_def resumeLoop_def)
next
  case True
  have "resumeLoop_cycle w = runNextTask (fst (resumeLoop w))"
    using True resumeLoop_keeps(5)[of w] by (simp add: resumeLoop_cycle_def case_prod_beta)
  then show ?thesis
    using True runNextTask_count[of "fst (resumeLoop w)"] by (simp add: resumeLoop_keeps)
qed

subsection \<open>The example run\<close>

lemmas parse_defs = parseTasksAsync_def readPRDAsync_def parseTasksFromContent_def js_def
    task_pattern_exec_def match_here_def isBullet_def isSpace_def isWhiteSpace_def
    isLineTerminator_def isMarker_def match_text_def trim_def toLowerCase_def
    marker_status_def decimal.simps

lemma example_ledger_after:
  "parseTasksAsync \<lparr>hasRoot = True, prdFile = FileContent
      ledger_after\<rparr> =
   [\<lparr> task_id = js ''task-1'', description = js ''task1'', status = COMPLETE,
       lineNumber = 1, rawLine = js ''- [x] task1'' \<rparr>,
    \<lparr> task_id = js ''task-2'', description = js ''task2'', status = PENDING,
       lineNumber = 2, rawLine = js ''- [ ] task2'' \<rparr>]"
  by (simp add: ledger_after_def parse_defs)

lemma example_next_after:
  "getNextTaskAsync \<lparr>hasRoot = True, prdFile = FileContent
      ledger_after\<rparr> =
   Some \<lparr> task_id = js ''task-2'', description = js ''task2'', status = PENDING,
       lineNumber = 2, rawLine = js ''- [ ] task2'' \<rparr>"
  unfolding getNextTaskAsync_def example_ledger_after by (simp add: isOpen_def)

lemma task_names_differ: "js ''task2'' \<noteq> js ''task1''"
  by (simp add: js_def)

lemma example_world_fields:
  "state example_world = RUNNING"
  "isPaused example_world = False"
  "taskRunner example_world =
     \<lparr> requirements = example_requirements, settings = \<lparr>maxIterations = 0\<rparr>,
       taskHistory = [], taskStartTime = 1000,
       currentTaskDescription = js ''task1'', iterationCount = 1 \<rparr>"
  "countdownTimer example_world = None"
  "workspace example_world = \<lparr>hasRoot = True,
          prdFile = FileContent ledger_after\<rparr>"
  "clock example_world = 91000"
  "progressFile example_world = Some [HeaderLine]"
  "fsWritable example_world = True"
  "dispatched example_world = [js ''task1'']"
  by (simp_all add: example_world_def)


lemma example_stopped_declared:
  "getNextTaskAsync (workspace (stopLoop example_world)) = None \<or>
   (\<exists>t. getNextTaskAsync (workspace (stopLoop example_world)) = Some t \<and>
        description t \<noteq> currentTaskDescription (taskRunner (stopLoop example_world)))"
  by (simp add: stopLoop_keeps example_world_fields example_next_after task_names_differ)

lemma example_stats:
  "getTaskStatsAsync \<lparr>hasRoot = True, prdFile = FileContent ledger_after\<rparr> =
     \<lparr>total = 2, completed = 1, pending = 1\<rparr>"
  unfolding getTaskStatsAsync_def example_ledger_after
  by (simp add: isOpen_def)

lemma example_no_limit: "\<not> fst (checkIterationLimit (taskRunner example_world))"
  by (simp add: checkIterationLimit_def example_world_fields)


subsection \<open>Claims about the loop orchestrator\<close>




text \<open>
  Claim C2, as amended. After \<open>stopLoop\<close> the execution state is Idle. The handler of
  ledger changes does not look at the execution state, and a callback delivered while Idle
  is not a no-op: it logs the change and records the new content, and, exactly when there
  is no next task or the next task's description differs from the recorded one, it
  disables the ledger watcher, stops the inactivity monitor, appends one
  \<open>TaskCompletion\<close> to the history, makes one attempt to append a progress-log entry
  (appended when a workspace folder is open and the write succeeds) and starts the
  countdown; otherwise the runner, the progress log and the countdown are as they were. In
  both cases it leaves the execution state Idle and the paused flag, the iteration counter,
  the current task and the dispatches unchanged, and when the countdown resolves nothing
  more happens while Idle than the countdown being cleared.
\<close>

theorem stale_ledger_callback:
  "state (stopLoop w) = IDLE \<and>
   \<not> prdWatching (prdWatcher (fileWatchers (stopLoop w))) \<and>
   (state w = IDLE \<longrightarrow>
      state (handlePrdChange N c w) = IDLE \<and>
      isPaused (handlePrdChange N c w) = isPaused w \<and>
      iterationCount (taskRunner (handlePrdChange N c w)) = iterationCount (taskRunner w) \<and>
      currentTaskDescription (taskRunner (handlePrdChange N c w)) =
        currentTaskDescription (taskRunner w) \<and>
      dispatched (handlePrdChange N c w) = dispatched w \<and>
      take (Suc (length (logs (ui w)))) (logs (ui (handlePrdChange N c w))) =
        logs (ui w) @ [(LogPrdChanged, False)] \<and>
      lastContent (prdWatcher (fileWatchers (handlePrdChange N c w))) = c \<and>
      (taskHistory (taskRunner (handlePrdChange N c w)) \<noteq> taskHistory (taskRunner w)) =
        (getNextTaskAsync (workspace w) = None \<or>
         (\<exists>t. getNextTaskAsync (workspace w) = Some t \<and>
              description t \<noteq> currentTaskDescription (taskRunner w))) \<and>
      (getNextTaskAsync (workspace w) = None \<or>
       (\<exists>t. getNextTaskAsync (workspace w) = Some t \<and>
            description t \<noteq> currentTaskDescription (taskRunner w)) \<longrightarrow>
         \<not> prdEnabled (prdWatcher (fileWatchers (handlePrdChange N c w))) \<and>
         inactivityMonitor (handlePrdChange N c w) =
           \<lparr>monitorTimer = TimerStopped, monitorWaiting = False\<rparr> \<and>
         taskHistory (taskRunner (handlePrdChange N c w)) =
           taskHistory (taskRunner w) @
             [\<lparr> taskDescription = currentTaskDescription (taskRunner w), completedAt = clock w,
                 duration = clock w - taskStartTime (taskRunner w),
                 iteration = iterationCount (taskRunner w) \<rparr>] \<and>
         progressFile (handlePrdChange N c w) =
           (if hasRoot (workspace w) \<and> fsWritable w then
              Some ((case progressFile w of None \<Rightarrow> [] | Some ls \<Rightarrow> ls) @
                    [EntryLine (clock w)
                       (CompletedEntry (currentTaskDescription (taskRunner w))
                          ((clock w - taskStartTime (taskRunner w) + 500) div 1000))])
            else progressFile w) \<and>
         countdownTimer (handlePrdChange N c w) = Some N) \<and>
      (\<not> (getNextTaskAsync (workspace w) = None \<or>
          (\<exists>t. getNextTaskAsync (workspace w) = Some t \<and>
               description t \<noteq> currentTaskDescription (taskRunner w))) \<longrightarrow>
         prdEnabled (prdWatcher (fileWatchers (handlePrdChange N c w))) =
           prdEnabled (prdWatcher (fileWatchers w)) \<and>
         inactivityMonitor (handlePrdChange N c w) = inactivityMonitor w \<and>
         taskRunner (handlePrdChange N c w) = taskRunner w \<and>
         progressFile (handlePrdChange N c w) = progressFile w \<and>
         countdownTimer (handlePrdChange N c w) = countdownTimer w) \<and>
      startCountdown_resolved (handlePrdChange N c w) =
        (handlePrdChange N c w)\<lparr>countdownTimer := None\<rparr>)"
proof (intro conjI impI)
  show "state (stopLoop w) = IDLE" by (rule stopLoop_state)
  show "\<not> prdWatching (prdWatcher (fileWatchers (stopLoop w)))" by (rule stopLoop_state)
next
  assume idle: "state w = IDLE"
  let ?w' = "handlePrdChange N c w"
  show "state ?w' = IDLE" using idle by (simp add: handlePrdChange_frame)
  then show "startCountdown_resolved ?w' = ?w'\<lparr>countdownTimer := None\<rparr>"
    by (simp add: startCountdown_resolved_def Let_def)
  show "isPaused ?w' = isPaused w" by (rule handlePrdChange_frame)
  show "iterationCount (taskRunner ?w') = iterationCount (taskRunner w)"
    by (rule handlePrdChange_frame)
  show "currentTaskDescription (taskRunner ?w') = currentTaskDescription (taskRunner w)"
    by (rule handlePrdChange_frame)
  show "dispatched ?w' = dispatched w" by (rule handlePrdChange_frame)
  show "take (Suc (length (logs (ui w)))) (logs (ui ?w')) = logs (ui w) @ [(LogPrdChanged, False)]"
    by (rule handlePrdChange_frame)
  show "lastContent (prdWatcher (fileWatchers ?w')) = c" by (rule handlePrdChange_frame)
  show "(taskHistory (taskRunner ?w') \<noteq> taskHistory (taskRunner w)) =
        (getNextTaskAsync (workspace w) = None \<or>
         (\<exists>t. getNextTaskAsync (workspace w) = Some t \<and>
              description t \<noteq> currentTaskDescription (taskRunner w)))"
  proof (cases "getNextTaskAsync (workspace w) = None \<or>
         (\<exists>t. getNextTaskAsync (workspace w) = Some t \<and>
              description t \<noteq> currentTaskDescription (taskRunner w))")
    case True
    then show ?thesis using handlePrdChange_completion[OF True, of N c] by simp
  next
    case False
    then obtain t where "getNextTaskAsync (workspace w) = Some t"
      "description t = currentTaskDescription (taskRunner w)"
      by (cases "getNextTaskAsync (workspace w)") auto
    then show ?thesis using False handlePrdChange_quiet(3)[of w t N c] by simp
  qed
next
  assume d: "getNextTaskAsync (workspace w) = None \<or>
       (\<exists>t. getNextTaskAsync (workspace w) = Some t \<and>
            description t \<noteq> currentTaskDescription (taskRunner w))"
  note fin = handlePrdChange_completion[OF d, of N c]
  show "\<not> prdEnabled (prdWatcher (fileWatchers (handlePrdChange N c w)))"
    using fin by (elim conjE)
  show "inactivityMonitor (handlePrdChange N c w) =
           \<lparr>monitorTimer = TimerStopped, monitorWaiting = False\<rparr>"
    using fin by (elim conjE)
  show "taskHistory (taskRunner (handlePrdChange N c w)) =
           taskHistory (taskRunner w) @
             [\<lparr> taskDescription = currentTaskDescription (taskRunner w), completedAt = clock w,
                 duration = clock w - taskStartTime (taskRunner w),
                 iteration = iterationCount (taskRunner w) \<rparr>]"
    using fin by (elim conjE)
  show "progressFile (handlePrdChange N c w) =
           (if hasRoot (workspace w) \<and> fsWritable w then
              Some ((case progressFile w of None \<Rightarrow> [] | Some ls \<Rightarrow> ls) @
                    [EntryLine (clock w)
                       (CompletedEntry (currentTaskDescription (taskRunner w))
                          ((clock w - taskStartTime (taskRunner w) + 500) div 1000))])
            else progressFile w)"
    using fin by (elim conjE)
  show "countdownTimer (handlePrdChange N c w) = Some N"
    using fin by (elim conjE)
next
  assume d: "\<not> (getNextTaskAsync (workspace w) = None \<or>
          (\<exists>t. getNextTaskAsync (workspace w) = Some t \<and>
               description t \<noteq> currentTaskDescription (taskRunner w)))"
  then obtain t where t: "getNextTaskAsync (workspace w) = Some t"
      "description t = currentTaskDescription (taskRunner w)"
    by (cases "getNextTaskAsync (workspace w)") auto
  note q = handlePrdChange_quiet[OF t, of N c]
  show "prdEnabled (prdWatcher (fileWatchers (handlePrdChange N c w))) =
           prdEnabled (prdWatcher (fileWatchers w))" by (rule q)
  show "inactivityMonitor (handlePrdChange N c w) = inactivityMonitor w" by (rule q)
  show "taskRunner (handlePrdChange N c w) = taskRunner w" by (rule q)
  show "progressFile (handlePrdChange N c w) = progressFile w" by (rule q)
  show "countdownTimer (handlePrdChange N c w) = countdownTimer w" by (rule q)
qed

theorem stale_ledger_callback_witness:
  "state (stopLoop example_world) = IDLE \<and>
   state (handlePrdChange 5 ledger_after (stopLoop example_world)) = IDLE \<and>
   dispatched (handlePrdChange 5 ledger_after (stopLoop example_world)) = [js ''task1''] \<and>
   iterationCount (taskRunner (handlePrdChange 5 ledger_after (stopLoop example_world))) = 1 \<and>
   countdownTimer (handlePrdChange 5 ledger_after (stopLoop example_world)) = Some 5"
proof -
  have idle: "state (stopLoop example_world) = IDLE"
    using stale_ledger_callback[of example_world, THEN conjunct1] .
  note inst = stale_ledger_callback[of "stopLoop example_world" 5 ledger_after,
      THEN conjunct2, THEN conjunct2, THEN mp, OF idle]
  have 1: "state (handlePrdChange 5 ledger_after (stopLoop example_world)) = IDLE"
    using inst by (elim conjE)
  have 2: "dispatched (handlePrdChange 5 ledger_after (stopLoop example_world)) =
      dispatched (stopLoop example_world)"
    using inst by (elim conjE)
  have 3: "iterationCount (taskRunner (handlePrdChange 5 ledger_after (stopLoop example_world))) =
      iterationCount (taskRunner (stopLoop example_world))"
    using inst by (elim conjE)
  have "getNextTaskAsync (workspace (stopLoop example_world)) = None \<or>
       (\<exists>t. getNextTaskAsync (workspace (stopLoop example_world)) = Some t \<and>
            description t \<noteq> currentTaskDescription (taskRunner (stopLoop example_world))) \<longrightarrow>
       \<not> prdEnabled (prdWatcher (fileWatchers (handlePrdChange 5 ledger_after
            (stopLoop example_world)))) \<and>
       inactivityMonitor (handlePrdChange 5 ledger_after (stopLoop example_world)) =
         \<lparr>monitorTimer = TimerStopped, monitorWaiting = False\<rparr> \<and>
       taskHistory (taskRunner (handlePrdChange 5 ledger_after (stopLoop example_world))) =
         taskHistory (taskRunner (stopLoop example_world)) @
           [\<lparr> taskDescription = currentTaskDescription (taskRunner (stopLoop example_world)),
               completedAt = clock (stopLoop example_world),
               duration = clock (stopLoop example_world) -
                 taskStartTime (taskRunner (stopLoop example_world)),
               iteration = iterationCount (taskRunner (stopLoop example_world)) \<rparr>] \<and>
       progressFile (handlePrdChange 5 ledger_after (stopLoop example_world)) =
         (if hasRoot (workspace (stopLoop example_world)) \<and> fsWritable (stopLoop example_world)
          then Some ((case progressFile (stopLoop example_world) of None \<Rightarrow> [] | Some ls \<Rightarrow> ls) @
                  [EntryLine (clock (stopLoop example_world))
                     (CompletedEntry (currentTaskDescription (taskRunner (stopLoop example_world)))
                        ((clock (stopLoop example_world) -
                          taskStartTime (taskRunner (stopLoop example_world)) + 500) div 1000))])
          else progressFile (stopLoop example_world)) \<and>
       countdownTimer (handlePrdChange 5 ledger_after (stopLoop example_world)) = Some 5"
    using inst by (elim conjE)
  from this[THEN mp, OF example_stopped_declared]
  have 4: "countdownTimer (handlePrdChange 5 ledger_after (stopLoop example_world)) = Some 5"
    by (elim conjE)
  show ?thesis
    using idle 1 2 3 4 by (simp add: stopLoop_keeps example_world_fields)
qed

text \<open>
  A ledger change handled after \<open>stopLoop\<close> is not a no-op: in the example run it
  records a completion, appends to the progress log and starts a countdown.
\<close>

theorem stale_ledger_callback_counterexample:
  "state (stopLoop example_world) = IDLE \<and>
   handlePrdChange 5 ledger_after (stopLoop example_world)
     \<noteq> stopLoop example_world \<and>
   taskHistory (taskRunner (stopLoop example_world)) = [] \<and>
   taskHistory (taskRunner (handlePrdChange 5 ledger_after
       (stopLoop example_world))) =
     [\<lparr> taskDescription = js ''task1'', completedAt = 91000, duration = 90000, iteration = 1 \<rparr>] \<and>
   progressFile (stopLoop example_world) = Some [HeaderLine] \<and>
   progressFile (handlePrdChange 5 ledger_after
       (stopLoop example_world)) =
     Some [HeaderLine, EntryLine 91000 (CompletedEntry (js ''task1'') 90)] \<and>
   countdownTimer (stopLoop example_world) = None \<and>
   countdownTimer (handlePrdChange 5 ledger_after
       (stopLoop example_world)) = Some 5"
proof -
  let ?c = ledger_after
  let ?s = "stopLoop example_world"
  note fin = handlePrdChange_completion[OF example_stopped_declared, of 5 ?c]
  have h: "taskHistory (taskRunner (handlePrdChange 5 ?c ?s)) =
     [\<lparr> taskDescription = js ''task1'', completedAt = 91000, duration = 90000, iteration = 1 \<rparr>]"
    using fin by (simp add: stopLoop_keeps example_world_fields)
  have p: "progressFile (handlePrdChange 5 ?c ?s) =
     Some [HeaderLine, EntryLine 91000 (CompletedEntry (js ''task1'') 90)]"
    using fin by (simp add: stopLoop_keeps example_world_fields)
  have t: "countdownTimer (handlePrdChange 5 ?c ?s) = Some 5"
    using fin by simp
  have "countdownTimer (handlePrdChange 5 ?c ?s) \<noteq> countdownTimer ?s"
    using t by (simp add: stopLoop_state)
  then have ne: "handlePrdChange 5 ?c ?s \<noteq> ?s" by auto
  show ?thesis
    using h p t ne by (simp add: stopLoop_state stopLoop_keeps example_world_fields)
qed

text \<open>
  Claim C7, as amended. Each call of \<open>incrementIteration\<close> returns the previous counter
  plus one and stores it, so the first call after a reset returns 1 and the counter grows
  strictly from call to call. The counter is reset to 0 by \<open>startLoop\<close> when the start
  is accepted (not already running, some task pending): it enters its first cycle with the
  counter at 0 and the dispatch of that cycle counts 1 whatever the counter was; a
  rejected \<open>startLoop\<close> leaves the counter as it is. \<open>pauseLoop\<close> leaves the counter
  unchanged. \<open>resumeLoop\<close> never resets it: the counter is unchanged when \<open>resumeLoop\<close>
  returns, and the cycle that \<open>resumeLoop\<close> starts adds one exactly when it reaches a
  dispatch (the loop was paused and running, a task is pending and the limit is not
  reached) and nothing otherwise.
\<close>

theorem iteration_counter:
  "incrementIteration r = (iterationCount r + 1, r\<lparr>iterationCount := iterationCount r + 1\<rparr>) \<and>
   iterationCount (resetIterations r) = 0 \<and>
   fst (incrementIteration (resetIterations r)) = 1 \<and>
   iterationCount r < fst (incrementIteration r) \<and>
   (\<forall>n. iterationCount (((\<lambda>r. snd (incrementIteration r)) ^^ n) r) = iterationCount r + int n) \<and>
   (state w \<noteq> RUNNING \<and> pending (getTaskStatsAsync (workspace w)) \<noteq> 0 \<longrightarrow>
      (\<exists>w1. startLoop w = runNextTask w1 \<and> state w1 = RUNNING \<and> \<not> isPaused w1 \<and>
            iterationCount (taskRunner w1) = 0) \<and>
      iterationCount (taskRunner (startLoop w)) = 1) \<and>
   (state w = RUNNING \<or> pending (getTaskStatsAsync (workspace w)) = 0 \<longrightarrow>
      iterationCount (taskRunner (startLoop w)) = iterationCount (taskRunner w)) \<and>
   iterationCount (taskRunner (pauseLoop w)) = iterationCount (taskRunner w) \<and>
   iterationCount (taskRunner (fst (resumeLoop w))) = iterationCount (taskRunner w) \<and>
   iterationCount (taskRunner w) \<le> iterationCount (taskRunner (resumeLoop_cycle w)) \<and>
   iterationCount (taskRunner (resumeLoop_cycle w)) \<le> iterationCount (taskRunner w) + 1 \<and>
   iterationCount (taskRunner (resumeLoop_cycle w)) =
     (if isPaused w \<and> state w = RUNNING \<and> pending (getTaskStatsAsync (workspace w)) \<noteq> 0 \<and>
         \<not> fst (checkIterationLimit (taskRunner w))
      then iterationCount (taskRunner w) + 1 else iterationCount (taskRunner w))"
proof (intro conjI impI allI)
  show "incrementIteration r = (iterationCount r + 1, r\<lparr>iterationCount := iterationCount r + 1\<rparr>)"
    by (simp add: incrementIteration_def)
  show "iterationCount (resetIterations r) = 0"
    by (simp add: resetIterations_def)
  show "fst (incrementIteration (resetIterations r)) = 1"
    by (simp add: incrementIteration_def resetIterations_def)
  show "iterationCount r < fst (incrementIteration r)"
    by (simp add: incrementIteration_def)
  show "iterationCount (((\<lambda>r. snd (incrementIteration r)) ^^ n) r) = iterationCount r + int n" for n
    by (rule increments_count)
  show "\<exists>w1. startLoop w = runNextTask w1 \<and> state w1 = RUNNING \<and> \<not> isPaused w1 \<and>
            iterationCount (taskRunner w1) = 0"
    if acc: "state w \<noteq> RUNNING \<and> pending (getTaskStatsAsync (workspace w)) \<noteq> 0"
    using startLoop_accepted[of w] acc by blast
  show "iterationCount (taskRunner (startLoop w)) = 1"
    if acc: "state w \<noteq> RUNNING \<and> pending (getTaskStatsAsync (workspace w)) \<noteq> 0"
  proof -
    obtain w1 where w1: "startLoop w = runNextTask w1" "state w1 = RUNNING" "\<not> isPaused w1"
      "workspace w1 = workspace w" "iterationCount (taskRunner w1) = 0"
      using startLoop_accepted[of w] acc by blast
    have "\<not> fst (checkIterationLimit (taskRunner w1))"
      using w1(5) by (simp add: checkIterationLimit_def)
    then show ?thesis
      using w1 acc runNextTask_count[of w1] by simp
  qed
  show "iterationCount (taskRunner (startLoop w)) = iterationCount (taskRunner w)"
    if "state w = RUNNING \<or> pending (getTaskStatsAsync (workspace w)) = 0"
    using startLoop_rejected[OF that] by simp
  show "iterationCount (taskRunner (pauseLoop w)) = iterationCount (taskRunner w)"
    by (simp add: pauseLoop_def Let_def ui_defs)
  show fst_resume: "iterationCount (taskRunner (fst (resumeLoop w))) = iterationCount (taskRunner w)"
    by (simp add: resumeLoop_def Let_def ui_defs)
  have cyc: "iterationCount (taskRunner (resumeLoop_cycle w)) = iterationCount (taskRunner w) \<or>
             iterationCount (taskRunner (resumeLoop_cycle w)) = iterationCount (taskRunner w) + 1"
  proof (cases "isPaused w")
    case False
    then show ?thesis by (simp add: resumeLoop_cycle_def resumeLoop_def)
  next
    case True
    then have "resumeLoop_cycle w = runNextTask (fst (resumeLoop w))"
      by (simp add: resumeLoop_cycle_def resumeLoop_def Let_def)
    then show ?thesis
      using runNextTask_count[of "fst (resumeLoop w)"] fst_resume by (simp split: if_splits)
  qed
  show "iterationCount (taskRunner w) \<le> iterationCount (taskRunner (resumeLoop_cycle w))"
    using cyc by auto
  show "iterationCount (taskRunner (resumeLoop_cycle w)) \<le> iterationCount (taskRunner w) + 1"
    using cyc by auto
  show "iterationCount (taskRunner (resumeLoop_cycle w)) =
     (if isPaused w \<and> state w = RUNNING \<and> pending (getTaskStatsAsync (workspace w)) \<noteq> 0 \<and>
         \<not> fst (checkIterationLimit (taskRunner w))
      then iterationCount (taskRunner w) + 1 else iterationCount (taskRunner w))"
    by (rule resumeLoop_cycle_count)
qed

theorem iteration_counter_witness:
  "iterationCount (taskRunner (startLoop
       ((stopLoop example_world)
          \<lparr>taskRunner := (taskRunner example_world)\<lparr>iterationCount := 7\<rparr>\<rparr>))) = 1 \<and>
   fst (incrementIteration (taskRunner example_world)) = 2 \<and>
   iterationCount (taskRunner (pauseLoop example_world)) = 1 \<and>
   iterationCount (taskRunner (fst (resumeLoop (pauseLoop example_world)))) = 1"
proof -
  let ?w = "(stopLoop example_world)
          \<lparr>taskRunner := (taskRunner example_world)\<lparr>iterationCount := 7\<rparr>\<rparr>"
  have "parseTasksAsync (workspace example_world) \<noteq> []"
    by (simp add: example_world_fields example_ledger_after)
  have st: "getTaskStatsAsync (workspace example_world) = \<lparr>total = 2, completed = 1, pending = 1\<rparr>"
    unfolding getTaskStatsAsync_def example_world_fields example_ledger_after
    by (simp add: isOpen_def)
  have acc: "state ?w \<noteq> RUNNING \<and> pending (getTaskStatsAsync (workspace ?w)) \<noteq> 0"
    by (simp add: stopLoop_state stopLoop_keeps st)
  have gen: "iterationCount (taskRunner (startLoop v)) = 1"
    if "state v \<noteq> RUNNING \<and> pending (getTaskStatsAsync (workspace v)) \<noteq> 0" for v
    using iteration_counter[of _ v] that by blast
  have 1: "iterationCount (taskRunner (startLoop ?w)) = 1"
    using gen[OF acc] .
  have 2: "fst (incrementIteration (taskRunner example_world)) = 2"
    using iteration_counter[of "taskRunner example_world"] by (simp add: example_world_fields)
  have 3: "iterationCount (taskRunner (pauseLoop example_world)) = 1"
    using iteration_counter[of _ example_world] by (simp add: example_world_fields)
  have 4: "iterationCount (taskRunner (fst (resumeLoop (pauseLoop example_world)))) = 1"
    using iteration_counter[of _ "pauseLoop example_world"] 3 by simp
  show ?thesis using 1 2 3 4 by simp
qed

text \<open>
  The counter is not left unchanged by a resume: in the example run the cycle started by
  \<open>resumeLoop\<close> after a pause dispatches the next task and the counter goes from 1 to 2.
  Nor does every \<open>startLoop\<close> reset it: called while the loop is running it is rejected
  and the counter stays 1.
\<close>

theorem iteration_counter_counterexample:
  "iterationCount (taskRunner (pauseLoop example_world)) = 1 \<and>
   iterationCount (taskRunner (resumeLoop_cycle (pauseLoop example_world))) = 2 \<and>
   state example_world = RUNNING \<and>
   iterationCount (taskRunner example_world) = 1 \<and>
   iterationCount (taskRunner (startLoop example_world)) = 1"
proof -
  have 1: "iterationCount (taskRunner (pauseLoop example_world)) = 1"
    by (simp add: pauseLoop_keeps example_world_fields)
  have 2: "iterationCount (taskRunner (resumeLoop_cycle (pauseLoop example_world))) = 2"
    using resumeLoop_cycle_count[of "pauseLoop example_world"] example_no_limit
    by (simp add: pauseLoop_keeps example_stats example_world_fields)
  have 3: "iterationCount (taskRunner (startLoop example_world)) = 1"
    using startLoop_rejected[of example_world] by (simp add: example_world_fields)
  show ?thesis using 1 2 3 by (simp add: example_world_fields)
qed

text \<open>
  Claim C9. Calling \<open>stopLoop\<close> twice gives the same world as calling it once.
  \<open>stopLoop\<close> has no precondition, and it always leaves the execution state Idle, the
  paused flag cleared, the three watchers disposed, the countdown not running and the
  inactivity timer stopped.
\<close>

theorem stopLoop_idempotent:
  "stopLoop (stopLoop w) = stopLoop w \<and>
   state (stopLoop w) = IDLE \<and>
   \<not> isPaused (stopLoop w) \<and>
   \<not> prdWatching (prdWatcher (fileWatchers (stopLoop w))) \<and>
   \<not> activityWatching (fileWatchers (stopLoop w)) \<and>
   \<not> prdCreationWatching (fileWatchers (stopLoop w)) \<and>
   countdownTimer (stopLoop w) = None \<and>
   monitorTimer (inactivityMonitor (stopLoop w)) = TimerStopped"
  by (simp add: stopLoop_def Let_def ui_defs collaborator_defs runner_defs)

theorem stopLoop_idempotent_witness:
  "stopLoop (stopLoop example_world) = stopLoop example_world \<and>
   state (stopLoop example_world) = IDLE \<and>
   countdownTimer (stopLoop example_world) = None"
  using stopLoop_idempotent[of example_world] by blast


end

